theory Spec2Isabelle
  imports Main "HOL-Library.AList"
begin

section \<open>JavaScript values\<close>

text \<open>
  The hooks of the repository pass around untyped JavaScript values: call parameters,
  results of the wrapped operation, response bodies. They are modelled by a datatype of
  JSON-like values. Numbers are the integer-valued ones (no \<open>NaN\<close>, no fractions),
  an object is the list of its own enumerable properties in insertion order (keys
  distinct), and functions and symbols are left out.
\<close>

datatype jsval =
    JUndefined
  | JNull
  | JBool bool
  | JNum int
  | JStr string
  | JArr "jsval list"
  | JObj "(string \<times> jsval) list"

text \<open>ToBoolean, as used by \<open>!x\<close>, \<open>x || y\<close>, \<open>x && y\<close> and \<open>if (x)\<close>.\<close>

fun truthy :: "jsval \<Rightarrow> bool" where
  "truthy JUndefined = False"
| "truthy JNull = False"
| "truthy (JBool b) = b"
| "truthy (JNum n) = (n \<noteq> 0)"
| "truthy (JStr s) = (s \<noteq> [])"
| "truthy (JArr xs) = True"
| "truthy (JObj kvs) = True"

subsection \<open>\<open>JSON.stringify\<close>\<close>

fun show_nat :: "nat \<Rightarrow> string" where
  "show_nat n =
     (if n < 10 then [''0123456789'' ! n]
      else show_nat (n div 10) @ [''0123456789'' ! (n mod 10)])"

declare show_nat.simps [simp del]

definition show_int :: "int \<Rightarrow> string" where
  "show_int i = (if i < 0 then CHR ''-'' # show_nat (nat (- i)) else show_nat (nat i))"

definition hex_digit :: "nat \<Rightarrow> char" where
  "hex_digit n = ''0123456789abcdef'' ! (n mod 16)"

text \<open>
  The escapes of \<open>JSON.stringify\<close> for one character of a string: the quote, the
  backslash, the short escapes of the control characters that have one, and \<open>\u00XX\<close>
  for the other control characters.
\<close>

definition escape_char :: "char \<Rightarrow> string" where
  "escape_char c =
     (if c = CHR 0x22 then [CHR 0x5C, CHR 0x22]
      else if c = CHR 0x5C then [CHR 0x5C, CHR 0x5C]
      else if c = CHR 0x08 then [CHR 0x5C, CHR ''b'']
      else if c = CHR 0x0C then [CHR 0x5C, CHR ''f'']
      else if c = CHR 0x0A then [CHR 0x5C, CHR ''n'']
      else if c = CHR 0x0D then [CHR 0x5C, CHR ''r'']
      else if c = CHR 0x09 then [CHR 0x5C, CHR ''t'']
      else if (of_char c :: nat) < 32
        then [CHR 0x5C, CHR ''u'', CHR ''0'', CHR ''0'',
              hex_digit (of_char c div 16), hex_digit (of_char c)]
      else [c])"

definition quote :: "string \<Rightarrow> string" where
  "quote s = CHR 0x22 # concat (map escape_char s) @ [CHR 0x22]"

fun join :: "string \<Rightarrow> string list \<Rightarrow> string" where
  "join sep [] = []"
| "join sep [x] = x"
| "join sep (x # y # ys) = x @ sep @ join sep (y # ys)"

text \<open>
  \<open>JSON.stringify v\<close>: \<open>None\<close> stands for the result \<open>undefined\<close> (of
  \<open>JSON.stringify(undefined)\<close>). Inside an array \<open>undefined\<close> is written
  \<open>null\<close>; inside an object a property whose value is \<open>undefined\<close> is dropped.
\<close>

fun JSON_stringify :: "jsval \<Rightarrow> string option" where
  "JSON_stringify JUndefined = None"
| "JSON_stringify JNull = Some ''null''"
| "JSON_stringify (JBool b) = Some (if b then ''true'' else ''false'')"
| "JSON_stringify (JNum n) = Some (show_int n)"
| "JSON_stringify (JStr s) = Some (quote s)"
| "JSON_stringify (JArr xs) =
     Some (''['' @ join '','' (map (\<lambda>x. case JSON_stringify x of None \<Rightarrow> ''null'' | Some t \<Rightarrow> t) xs) @ '']'')"
| "JSON_stringify (JObj kvs) =
     Some (''{'' @ join '',''
        (concat (map (\<lambda>(k, v). case JSON_stringify v of None \<Rightarrow> [] | Some t \<Rightarrow> [quote k @ '':'' @ t]) kvs))
        @ ''}'')"

section \<open>Errors, promises and the wrapped operation\<close>

text \<open>
  The errors the code creates or passes on: a plain \<open>new Error(message)\<close>, the
  \<open>TypeError\<close> of reading a property of \<open>null\<close> or \<open>undefined\<close> (and of a
  \<open>fetch\<close> that fails), the \<open>SyntaxError\<close> of parsing a malformed JSON body, and
  the \<open>APIError\<close> class of \<open>utils/api.js\<close> with its message, status and data.
\<close>

datatype error =
    Error string
  | TypeError
  | SyntaxError
  | APIError jsval nat jsval

text \<open>How the promise returned by an \<open>async\<close> function settles.\<close>

datatype 'a outcome = Resolved 'a | Rejected error

text \<open>
  The wrapped operation \<open>apiFunction\<close>: its \<open>requiresAuth\<close> flag and what a
  call with the given argument list settles to (\<open>Inl\<close>: it rejects).
\<close>

record 'r api =
  requiresAuth :: bool
  call :: "jsval list \<Rightarrow> error + 'r"

text \<open>
  Every hook function is modelled by the list of the effects it performs, in the order
  of the source's statements, and the outcome of its promise. The effects are the calls
  of the state setters, the writes of the refs, the calls of the scheduler, the
  invocation of the wrapped operation (with its argument list) and the calls of the
  callbacks.

  A state setter of React does not change what the running callback sees: a callback
  made by \<open>useCallback\<close> reads the \<open>useState\<close> values of the render it was made
  in, and a ref is read as it is at that moment. So a hook function takes the state of
  its render as an argument, and the effects are applied to the state afterwards. The
  wrapped operation is asynchronous: it settles after the call that invoked it has
  returned.
\<close>

record cache_entry =
  timestamp :: "int option"
  cached_data :: jsval
  cached_params :: jsval

datatype effect =
    SetData jsval
  | SetLoading bool
  | SetError "error option"
  | SetCacheRef cache_entry
  | Invoke "jsval list"
  | OnSuccess jsval
  | OnError error
  | SetIsPolling bool
  | SetInterval nat
  | ClearInterval nat
  | SetTimerRef "nat option"
  | SetItems "jsval list"
  | AppendItems "jsval list"
  | SetHasMore bool
  | SetPage int

text \<open>The argument lists the wrapped operation was invoked with.\<close>

definition invocations :: "effect list \<Rightarrow> jsval list list" where
  "invocations t = concat (map (\<lambda>e. case e of Invoke args \<Rightarrow> [args] | _ \<Rightarrow> []) t)"

text \<open>The \<open>useState\<close> cells the hooks share.\<close>

record async_state =
  loading :: bool
  error :: "error option"

record data_state = async_state +
  data :: jsval

section \<open>The Call Controller: \<open>useApiCall\<close>\<close>

text \<open>
  The hook \<open>useApiCall\<close> of the hooks module (\<open>src/unnamed/part_000\<close>, lines 15 to
  131; \<open>isCacheValid\<close> at lines 35 to 47, \<open>execute\<close> at lines 59 to 106).
\<close>

record call_config =
  loadOnMount :: bool
  cache :: bool
  cacheTime :: int
  onSuccess :: bool
  onError :: bool

text \<open>
  \<open>onSuccess\<close> and \<open>onError\<close> say whether the callback was supplied; a supplied
  callback is taken to return normally. The state of one controller is the three
  \<open>useState\<close> cells and the cache ref.
\<close>

record call_state = data_state +
  cacheRef :: cache_entry

definition empty_cache :: cache_entry where
  "empty_cache = \<lparr>timestamp = None, cached_data = JNull, cached_params = JNull\<rparr>"

definition useApiCall_init :: call_state where
  "useApiCall_init = \<lparr>loading = False, error = None, data = JNull, cacheRef = empty_cache\<rparr>"

fun call_apply :: "effect \<Rightarrow> call_state \<Rightarrow> call_state" where
  "call_apply (SetData v) s = s\<lparr>data := v\<rparr>"
| "call_apply (SetLoading b) s = s\<lparr>loading := b\<rparr>"
| "call_apply (SetError e) s = s\<lparr>error := e\<rparr>"
| "call_apply (SetCacheRef c) s = s\<lparr>cacheRef := c\<rparr>"
| "call_apply _ s = s"

definition call_run :: "effect list \<Rightarrow> call_state \<Rightarrow> call_state" where
  "call_run t s = foldl (\<lambda>s e. call_apply e s) s t"

text \<open>
  \<open>isCacheValid(params)\<close> at the time \<open>now\<close> (the value of \<open>Date.now()\<close>),
  reading the cache ref \<open>c\<close>. \<open>!timestamp\<close> holds for \<open>null\<close> and for \<open>0\<close>.
\<close>

definition isCacheValid :: "call_config \<Rightarrow> cache_entry \<Rightarrow> int \<Rightarrow> jsval \<Rightarrow> bool" where
  "isCacheValid cfg c now params =
     (if \<not> cache cfg then False
      else case timestamp c of
        None \<Rightarrow> False
      | Some ts \<Rightarrow>
          if ts = 0 \<or> \<not> truthy (cached_data c) then False
          else if now - ts > cacheTime cfg then False
          else JSON_stringify params = JSON_stringify (cached_params c))"

definition clearCache :: "effect list" where
  "clearCache = [SetCacheRef empty_cache]"

text \<open>
  \<open>execute(...params)\<close>, called at time \<open>now\<close> while the cache ref holds \<open>c\<close>; the
  wrapped operation, when invoked, settles at time \<open>now'\<close>. The \<open>finally\<close> block runs
  after the \<open>try\<close> or \<open>catch\<close> block and before the promise settles.
\<close>

definition execute ::
  "call_config \<Rightarrow> jsval api \<Rightarrow> bool \<Rightarrow> int \<Rightarrow> int \<Rightarrow> cache_entry \<Rightarrow> jsval list
     \<Rightarrow> effect list \<times> jsval outcome" where
  "execute cfg apiFunction isAuthenticated now now' c params =
     (if requiresAuth apiFunction \<and> \<not> isAuthenticated then
        (let authError = Error ''Authentication required'' in
         ([SetError (Some authError)] @ (if onError cfg then [OnError authError] else []),
          Resolved JUndefined))
      else if isCacheValid cfg c now (JArr params) then
        ([SetData (cached_data c)], Resolved (cached_data c))
      else
        (case call apiFunction params of
           Inr result \<Rightarrow>
             ([SetLoading True, SetError None, Invoke params, SetData result]
                @ (if cache cfg
                   then [SetCacheRef \<lparr>timestamp = Some now', cached_data = result,
                                       cached_params = JArr params\<rparr>]
                   else [])
                @ (if onSuccess cfg then [OnSuccess result] else [])
                @ [SetLoading False],
              Resolved result)
         | Inl err \<Rightarrow>
             ([SetLoading True, SetError None, Invoke params, SetError (Some err)]
                @ (if onError cfg then [OnError err] else [])
                @ [SetLoading False],
              Rejected err)))"

definition reset :: "effect list" where
  "reset = [SetData JNull, SetLoading False, SetError None] @ clearCache"

text \<open>The mount effect: \<open>execute()\<close> with no parameters when \<open>loadOnMount\<close> is set.\<close>

definition useApiCall_mount ::
  "call_config \<Rightarrow> jsval api \<Rightarrow> bool \<Rightarrow> int \<Rightarrow> int \<Rightarrow> cache_entry \<Rightarrow> effect list" where
  "useApiCall_mount cfg apiFunction isAuthenticated now now' c =
     (if loadOnMount cfg then fst (execute cfg apiFunction isAuthenticated now now' c []) else [])"

text \<open>One awaited call of \<open>execute\<close> on a controller: the state afterwards.\<close>

definition execute_state ::
  "call_config \<Rightarrow> jsval api \<Rightarrow> bool \<Rightarrow> int \<Rightarrow> int \<Rightarrow> jsval list \<Rightarrow> call_state \<Rightarrow> call_state" where
  "execute_state cfg apiFunction isAuthenticated now now' params s =
     call_run (fst (execute cfg apiFunction isAuthenticated now now' (cacheRef s) params)) s"

section \<open>The Poller: \<open>useApiPolling\<close>\<close>

text \<open>
  The hook \<open>useApiPolling\<close> (\<open>src/unnamed/part_000\<close>, lines 143 to 239;
  \<open>clearTimer\<close> at lines 157 to 162, \<open>executePoll\<close> at lines 165 to 191,
  \<open>startPolling\<close> at lines 194 to 207, the polling effect at lines 216 to 223).
  The dependency list of the hook is not a field: a change of it is the event
  \<open>Rerun\<close> below. \<open>interval\<close> is the period handed to \<open>setInterval\<close>.
\<close>

record poll_config =
  interval :: int
  immediate :: bool
  stopOnError :: bool

text \<open>
  The state of one poller: its \<open>useState\<close> cells, the timer ref, and the part of the
  ambient scheduler it touches: the handles of the intervals that are live, and the last
  handle \<open>setInterval\<close> returned (handles are positive integers, so a handle is
  truthy). \<open>in_flight\<close> counts the invocations of the wrapped operation that have
  not settled yet.

  \<open>isPolling\<close> is the value of the state cell, as the setters have left it. What a
  callback reads is the \<open>isPolling\<close> of the render that made it, and the cell changes
  without the callbacks already made seeing it. \<open>rendered\<close> lists the values of
  \<open>isPolling\<close> in the renders so far, the latest first; the first render has
  \<open>useState(immediate)\<close>.
\<close>

record poller = data_state +
  isPolling :: bool
  rendered :: "bool list"
  timerRef :: "nat option"
  intervals :: "nat list"
  last_handle :: nat
  in_flight :: nat

definition useApiPolling_init :: "poll_config \<Rightarrow> poller" where
  "useApiPolling_init cfg =
     \<lparr>loading = False, error = None, data = JNull, isPolling = immediate cfg,
      rendered = [immediate cfg], timerRef = None, intervals = [], last_handle = 0,
      in_flight = 0\<rparr>"

text \<open>The \<open>isPolling\<close> of the latest render.\<close>

definition latest_render :: "poller \<Rightarrow> bool" where
  "latest_render w = (case rendered w of [] \<Rightarrow> isPolling w | b # bs \<Rightarrow> b)"

fun poll_apply :: "effect \<Rightarrow> poller \<Rightarrow> poller" where
  "poll_apply (SetData v) w = w\<lparr>data := v\<rparr>"
| "poll_apply (SetLoading b) w = w\<lparr>loading := b\<rparr>"
| "poll_apply (SetError e) w = w\<lparr>error := e\<rparr>"
| "poll_apply (SetIsPolling b) w = w\<lparr>isPolling := b\<rparr>"
| "poll_apply (SetInterval h) w = w\<lparr>intervals := h # intervals w, last_handle := h\<rparr>"
| "poll_apply (ClearInterval h) w = w\<lparr>intervals := removeAll h (intervals w)\<rparr>"
| "poll_apply (SetTimerRef r) w = w\<lparr>timerRef := r\<rparr>"
| "poll_apply (Invoke args) w = w\<lparr>in_flight := Suc (in_flight w)\<rparr>"
| "poll_apply _ w = w"

definition poll_run :: "effect list \<Rightarrow> poller \<Rightarrow> poller" where
  "poll_run t w = foldl (\<lambda>w e. poll_apply e w) w t"

definition clearTimer :: "poller \<Rightarrow> effect list" where
  "clearTimer w =
     (case timerRef w of
        Some h \<Rightarrow> [ClearInterval h, SetTimerRef None]
      | None \<Rightarrow> [])"

text \<open>
  \<open>executePoll\<close> in its two parts: what runs when it is called, up to the \<open>await\<close>,
  and what runs when the wrapped operation has settled with \<open>r\<close>, in the state \<open>w\<close> of
  that moment.
\<close>

definition executePoll_begin :: "'r api \<Rightarrow> bool \<Rightarrow> effect list" where
  "executePoll_begin apiFunction isAuthenticated =
     (if requiresAuth apiFunction \<and> \<not> isAuthenticated then []
      else [SetLoading True, SetError None, Invoke []])"

definition executePoll_resume ::
  "poll_config \<Rightarrow> error + jsval \<Rightarrow> poller \<Rightarrow> effect list \<times> jsval outcome" where
  "executePoll_resume cfg r w =
     (case r of
        Inr result \<Rightarrow> ([SetData result, SetLoading False], Resolved result)
      | Inl err \<Rightarrow>
          ([SetError (Some err)]
             @ (if stopOnError cfg then SetIsPolling False # clearTimer w else [])
             @ [SetLoading False],
           Rejected err))"

text \<open>One call of \<open>executePoll\<close> whose operation settles before anything else happens.\<close>

definition executePoll ::
  "poll_config \<Rightarrow> jsval api \<Rightarrow> bool \<Rightarrow> poller \<Rightarrow> effect list \<times> jsval outcome" where
  "executePoll cfg apiFunction isAuthenticated w =
     (if requiresAuth apiFunction \<and> \<not> isAuthenticated then ([], Resolved JUndefined)
      else
        (let t = executePoll_begin apiFunction isAuthenticated;
             (u, out) = executePoll_resume cfg (call apiFunction []) (poll_run t w)
         in (t @ u, out)))"

text \<open>
  \<open>startPolling\<close>: the argument \<open>isPolling'\<close> is the \<open>isPolling\<close> of the render
  the callback belongs to; the timer ref is read as it is now, and is overwritten without
  the interval it held being cleared. The immediate \<open>executePoll()\<close> is not awaited,
  so only its first part runs here.
\<close>

definition startPolling ::
  "poll_config \<Rightarrow> 'r api \<Rightarrow> bool \<Rightarrow> bool \<Rightarrow> poller \<Rightarrow> effect list" where
  "startPolling cfg apiFunction isAuthenticated isPolling' w =
     (if isPolling' \<and> timerRef w \<noteq> None then []
      else
        [SetIsPolling True]
          @ (if immediate cfg then executePoll_begin apiFunction isAuthenticated else [])
          @ [SetInterval (Suc (last_handle w)), SetTimerRef (Some (Suc (last_handle w)))])"

definition stopPolling :: "poller \<Rightarrow> effect list" where
  "stopPolling w = SetIsPolling False # clearTimer w"

text \<open>
  The polling effect: its body, which reads the \<open>isPolling\<close> of its render and calls
  the \<open>startPolling\<close> of the same render, and its cleanup.
\<close>

definition polling_effect ::
  "poll_config \<Rightarrow> 'r api \<Rightarrow> bool \<Rightarrow> bool \<Rightarrow> poller \<Rightarrow> effect list" where
  "polling_effect cfg apiFunction isAuthenticated isPolling' w =
     (if isPolling'
      then (let t = clearTimer w
            in t @ startPolling cfg apiFunction isAuthenticated isPolling' (poll_run t w))
      else [])"

definition polling_cleanup :: "poller \<Rightarrow> effect list" where
  "polling_cleanup w = clearTimer w"

text \<open>
  What can happen to a mounted poller:
  \<^item> \<open>Mount\<close>: the polling effect of the first render runs;
  \<^item> \<open>Render\<close>: the component renders again, with the \<open>isPolling\<close> the cell holds;
  \<^item> \<open>Rerun\<close>: the polling effect runs again (a dependency changed): the cleanup, then
    the body of the latest render. A state setter that ran after that render is not seen
    by it;
  \<^item> \<open>Tick h\<close>: the interval \<open>h\<close> of the scheduler fires, if it is live (an interval
    that was cleared does not fire);
  \<^item> \<open>Settle r\<close>: an invocation in flight settles with \<open>r\<close>;
  \<^item> \<open>StartPolling b\<close>: the component calls a \<open>startPolling\<close> callback made by a
    render in which \<open>isPolling\<close> was \<open>b\<close>; there must have been such a render. Two
    calls from one handler are two such events with no \<open>Render\<close> between them;
  \<^item> \<open>StopPolling\<close>: the component calls \<open>stopPolling\<close>;
  \<^item> \<open>Unmount\<close>: the cleanups of both effects run.
\<close>

datatype event =
    Mount
  | Render
  | Rerun
  | Tick nat
  | Settle "error + jsval"
  | StartPolling bool
  | StopPolling
  | Unmount

fun poll_step :: "poll_config \<Rightarrow> 'r api \<Rightarrow> bool \<Rightarrow> event \<Rightarrow> poller \<Rightarrow> effect list" where
  "poll_step cfg f auth Mount w = polling_effect cfg f auth (latest_render w) w"
| "poll_step cfg f auth Render w = []"
| "poll_step cfg f auth Rerun w =
     (let t = polling_cleanup w
      in t @ polling_effect cfg f auth (latest_render w) (poll_run t w))"
| "poll_step cfg f auth (Tick h) w =
     (if h \<in> set (intervals w) then executePoll_begin f auth else [])"
| "poll_step cfg f auth (Settle r) w =
     (if in_flight w = 0 then [] else fst (executePoll_resume cfg r w))"
| "poll_step cfg f auth (StartPolling b) w =
     (if b \<in> set (rendered w) then startPolling cfg f auth b w else [])"
| "poll_step cfg f auth StopPolling w = stopPolling w"
| "poll_step cfg f auth Unmount w =
     (let t = polling_cleanup w in t @ clearTimer (poll_run t w))"

text \<open>
  The state after an event: its effects applied, and besides them the bookkeeping of the
  model: a render records the \<open>isPolling\<close> it sees, a settled invocation is no longer
  in flight.
\<close>

definition poll_next :: "poll_config \<Rightarrow> 'r api \<Rightarrow> bool \<Rightarrow> event \<Rightarrow> poller \<Rightarrow> poller" where
  "poll_next cfg f auth ev w =
     (let w' = poll_run (poll_step cfg f auth ev w) w
      in case ev of
           Settle r \<Rightarrow> w'\<lparr>in_flight := in_flight w' - 1\<rparr>
         | Render \<Rightarrow> w'\<lparr>rendered := isPolling w' # rendered w'\<rparr>
         | _ \<Rightarrow> w')"

text \<open>A sequence of events: all the effects, in order, and the state at the end.\<close>

fun poll_events ::
  "poll_config \<Rightarrow> 'r api \<Rightarrow> bool \<Rightarrow> event list \<Rightarrow> poller \<Rightarrow> effect list \<times> poller" where
  "poll_events cfg f auth [] w = ([], w)"
| "poll_events cfg f auth (ev # evs) w =
     (let (t, w') = poll_events cfg f auth evs (poll_next cfg f auth ev w)
      in (poll_step cfg f auth ev w @ t, w'))"

definition schedules :: "effect list \<Rightarrow> nat list" where
  "schedules t = concat (map (\<lambda>e. case e of SetInterval h \<Rightarrow> [h] | _ \<Rightarrow> []) t)"

text \<open>
  A poller at rest: not polling, no timer in the ref, no live interval. A poller that was
  never started: at rest, and no render has seen \<open>isPolling\<close> set. And the ownership
  of the timer: the only live interval is the one in the ref.
\<close>

definition at_rest :: "poller \<Rightarrow> bool" where
  "at_rest w = (\<not> isPolling w \<and> timerRef w = None \<and> intervals w = [])"

definition never_started :: "poller \<Rightarrow> bool" where
  "never_started w = (at_rest w \<and> True \<notin> set (rendered w))"

definition timer_owned :: "poller \<Rightarrow> bool" where
  "timer_owned w = (intervals w = (case timerRef w of None \<Rightarrow> [] | Some h \<Rightarrow> [h]))"

section \<open>The Paginator: \<open>useInfiniteScroll\<close>\<close>

text \<open>
  The hook \<open>useInfiniteScroll\<close> (\<open>src/unnamed/part_000\<close>, lines 251 to 338;
  \<open>fetchPage\<close> at lines 264 to 314, \<open>loadMore\<close> at lines 317 to 321,
  \<open>refresh\<close> at lines 324 to 327).
\<close>

record page_config =
  initialPage :: int
  pageSize :: int
  pageParam :: string
  limitParam :: string

record page_state = async_state +
  items :: "jsval list"
  page :: int
  hasMore :: bool

definition useInfiniteScroll_init :: "page_config \<Rightarrow> page_state" where
  "useInfiniteScroll_init cfg =
     \<lparr>loading = False, error = None, items = [], page = initialPage cfg, hasMore = True\<rparr>"

text \<open>
  What the paged operation answers: \<open>null\<close> or \<open>undefined\<close>, an array, or an object.
  Of an object the six properties the hook reads are kept, where \<open>None\<close> stands for a
  property that is absent, \<open>undefined\<close> or \<open>null\<close>; the lists are arrays, the counts
  are numbers.
\<close>

record response_object =
  resp_data :: "jsval list option"
  resp_items :: "jsval list option"
  resp_results :: "jsval list option"
  resp_total :: "int option"
  resp_totalCount :: "int option"
  resp_count :: "int option"

datatype page_response =
    NoResponse
  | ArrayResponse "jsval list"
  | ObjectResponse response_object

text \<open>The value \<open>fetchPage\<close> returns: \<open>undefined\<close>, an array, or the response itself.\<close>

datatype fetched = Nothing | Items "jsval list" | Whole response_object

text \<open>
  \<open>response.data || response.items || response.results || response\<close>: an array is
  truthy, also an empty one. Reading a property of \<open>null\<close> throws.
\<close>

definition newItems_of :: "page_response \<Rightarrow> error + fetched" where
  "newItems_of response =
     (case response of
        NoResponse \<Rightarrow> Inl TypeError
      | ArrayResponse xs \<Rightarrow> Inr (Items xs)
      | ObjectResponse r \<Rightarrow>
          Inr (case resp_data r of
                 Some xs \<Rightarrow> Items xs
               | None \<Rightarrow>
                   (case resp_items r of
                      Some xs \<Rightarrow> Items xs
                    | None \<Rightarrow>
                        (case resp_results r of
                           Some xs \<Rightarrow> Items xs
                         | None \<Rightarrow> Whole r))))"

text \<open>
  \<open>response.total || response.totalCount || response.count\<close>, as far as the test
  \<open>if (total)\<close> sees it: \<open>None\<close> when the value is falsy (absent or \<open>0\<close>).
\<close>

definition truthy_count :: "int option \<Rightarrow> bool" where
  "truthy_count n = (case n of Some k \<Rightarrow> k \<noteq> 0 | None \<Rightarrow> False)"

definition total_of :: "page_response \<Rightarrow> int option" where
  "total_of response =
     (case response of
        ObjectResponse r \<Rightarrow>
          (if truthy_count (resp_total r) then resp_total r
           else if truthy_count (resp_totalCount r) then resp_totalCount r
           else if truthy_count (resp_count r) then resp_count r
           else None)
      | _ \<Rightarrow> None)"

fun page_apply :: "effect \<Rightarrow> page_state \<Rightarrow> page_state" where
  "page_apply (SetLoading b) s = s\<lparr>loading := b\<rparr>"
| "page_apply (SetError e) s = s\<lparr>error := e\<rparr>"
| "page_apply (SetItems xs) s = s\<lparr>items := xs\<rparr>"
| "page_apply (AppendItems xs) s = s\<lparr>items := items s @ xs\<rparr>"
| "page_apply (SetHasMore b) s = s\<lparr>hasMore := b\<rparr>"
| "page_apply (SetPage n) s = s\<lparr>page := n\<rparr>"
| "page_apply _ s = s"

definition page_run :: "effect list \<Rightarrow> page_state \<Rightarrow> page_state" where
  "page_run t s = foldl (\<lambda>s e. page_apply e s) s t"

text \<open>The parameter object \<open>{[pageParam]: pageNumber, [limitParam]: pageSize}\<close>.\<close>

definition page_params :: "page_config \<Rightarrow> int \<Rightarrow> jsval" where
  "page_params cfg pageNumber =
     JObj (AList.update (limitParam cfg) (JNum (pageSize cfg)) [(pageParam cfg, JNum pageNumber)])"

text \<open>
  \<open>fetchPage(pageNumber)\<close>, the callback of the render whose state is \<open>s\<close>: it reads
  \<open>loading\<close>, \<open>hasMore\<close>, \<open>page\<close> and \<open>items.length\<close> of that render. The argument
  \<open>None\<close> is the omitted one, which defaults to \<open>page\<close>. \<open>AppendItems\<close> is the
  functional update \<open>setItems(prev => [...prev, ...newItems])\<close>.
\<close>

definition fetchPage ::
  "page_config \<Rightarrow> page_response api \<Rightarrow> page_state \<Rightarrow> int option \<Rightarrow> effect list \<times> fetched outcome" where
  "fetchPage cfg apiFunction s arg =
     (let pageNumber = (case arg of None \<Rightarrow> page s | Some n \<Rightarrow> n) in
      if loading s \<or> \<not> hasMore s then ([], Resolved Nothing)
      else
        (let params = page_params cfg pageNumber;
             started = [SetLoading True, SetError None, Invoke [params]];
             failed = (\<lambda>err. (started @ [SetError (Some err), SetLoading False], Rejected err))
         in case call apiFunction [params] of
              Inl err \<Rightarrow> failed err
            | Inr response \<Rightarrow>
                (case newItems_of response of
                   Inl err \<Rightarrow> failed err
                 | Inr (Items (x # xs)) \<Rightarrow>
                     (started
                        @ [if pageNumber = initialPage cfg then SetItems (x # xs)
                           else AppendItems (x # xs)]
                        @ [case total_of response of
                             Some n \<Rightarrow>
                               SetHasMore (int (length (items s)) + int (length (x # xs)) < n)
                           | None \<Rightarrow> SetHasMore (int (length (x # xs)) \<ge> pageSize cfg)]
                        @ [SetPage pageNumber, SetLoading False],
                      Resolved (Items (x # xs)))
                 | Inr newItems \<Rightarrow>
                     (started @ [SetHasMore False, SetLoading False], Resolved newItems))))"

definition loadMore ::
  "page_config \<Rightarrow> page_response api \<Rightarrow> page_state \<Rightarrow> effect list \<times> fetched outcome" where
  "loadMore cfg apiFunction s =
     (if \<not> loading s \<and> hasMore s then fetchPage cfg apiFunction s (Some (page s + 1))
      else ([], Resolved Nothing))"

text \<open>
  \<open>refresh\<close>: \<open>setHasMore(true)\<close>, then \<open>fetchPage(initialPage)\<close>, which is the
  callback of the same render and so still reads the \<open>hasMore\<close> of \<open>s\<close>.
\<close>

definition refresh ::
  "page_config \<Rightarrow> page_response api \<Rightarrow> page_state \<Rightarrow> effect list \<times> fetched outcome" where
  "refresh cfg apiFunction s =
     (let (t, out) = fetchPage cfg apiFunction s (Some (initialPage cfg))
      in (SetHasMore True # t, out))"

text \<open>
  The state after one awaited call on a paginator that has rendered the state \<open>s\<close>:
  the callback belongs to that render, and its effects apply to that state.
\<close>

definition fetchPage_state ::
  "page_config \<Rightarrow> page_response api \<Rightarrow> int option \<Rightarrow> page_state \<Rightarrow> page_state" where
  "fetchPage_state cfg apiFunction arg s = page_run (fst (fetchPage cfg apiFunction s arg)) s"

definition loadMore_state :: "page_config \<Rightarrow> page_response api \<Rightarrow> page_state \<Rightarrow> page_state" where
  "loadMore_state cfg apiFunction s = page_run (fst (loadMore cfg apiFunction s)) s"

definition refresh_state :: "page_config \<Rightarrow> page_response api \<Rightarrow> page_state \<Rightarrow> page_state" where
  "refresh_state cfg apiFunction s = page_run (fst (refresh cfg apiFunction s)) s"

section \<open>The REST client: \<open>apiRequest\<close>\<close>

text \<open>
  The function \<open>apiRequest\<close> and the class \<open>APIError\<close> of \<open>src/utils/api.js\<close>
  (lines 7 to 15 and 27 to 112).
\<close>



fun startsWith :: "string \<Rightarrow> string \<Rightarrow> bool" where
  "startsWith s [] = True"
| "startsWith [] (c # t) = False"
| "startsWith (a # s) (c # t) = (a = c \<and> startsWith s t)"

fun str_includes :: "string \<Rightarrow> string \<Rightarrow> bool" where
  "str_includes [] t = (t = [])"
| "str_includes (a # s) t = (startsWith (a # s) t \<or> str_includes s t)"


record response =
  status :: nat
  content_type :: "string option"
  json :: "error + jsval"
  text_of :: "error + string"





definition isJson :: "response \<Rightarrow> bool" where
  "isJson r = (case content_type r of
                 None \<Rightarrow> False
               | Some ct \<Rightarrow> ct \<noteq> [] \<and> str_includes ct ''application/json'')"

text \<open>\<open>responseData\<close>: the parsed body, or the failure of reading it.\<close>

definition read_body :: "response \<Rightarrow> error + jsval" where
  "read_body r =
     (if isJson r then json r
      else (case text_of r of Inl e \<Rightarrow> Inl e | Inr t \<Rightarrow> Inr (JStr t)))"




section \<open>Concrete operations and configurations\<close>

text \<open>An operation that settles the same way whatever its arguments are.\<close>

definition const_api :: "bool \<Rightarrow> error + 'r \<Rightarrow> 'r api" where
  "const_api ra r = \<lparr>requiresAuth = ra, call = (\<lambda>args. r)\<rparr>"

text \<open>A caching controller with \<open>cacheTime = 5000\<close>, called with \<open>{id: 1}\<close>.\<close>

definition caching_config :: call_config where
  "caching_config =
     \<lparr>loadOnMount = False, cache = True, cacheTime = 5000, onSuccess = False, onError = True\<rparr>"

definition id1_params :: "jsval list" where
  "id1_params = [JObj [(''id'', JNum 1)]]"


text \<open>
  Cache entries written at time \<open>1000\<close> for the parameters \<open>{id: 1}\<close>, holding the
  results \<open>"v1"\<close> and \<open>0\<close>, and one for the single parameter \<open>null\<close>.
\<close>

definition v1_entry :: cache_entry where
  "v1_entry = \<lparr>timestamp = Some 1000, cached_data = JStr ''v1'', cached_params = JArr id1_params\<rparr>"

definition zero_entry :: cache_entry where
  "zero_entry = \<lparr>timestamp = Some 1000, cached_data = JNum 0, cached_params = JArr id1_params\<rparr>"

definition null_entry :: cache_entry where
  "null_entry = \<lparr>timestamp = Some 1000, cached_data = JStr ''v1'', cached_params = JArr [JNull]\<rparr>"


text \<open>A controller whose cache ref holds \<open>v1_entry\<close>, and an operation that fails.\<close>

definition v1_state :: call_state where
  "v1_state = useApiCall_init\<lparr>data := JStr ''v1'', cacheRef := v1_entry\<rparr>"

definition failing_api :: "'r api" where
  "failing_api = const_api False (Inl (Error ''boom''))"


text \<open>
  The scenario of the specification: a collection of 25 items served in pages of 10,
  every response carrying \<open>total = 25\<close>. The items are the numbers \<open>0, ..., 24\<close>.
\<close>

definition scenario_config :: page_config where
  "scenario_config = \<lparr>initialPage = 1, pageSize = 10, pageParam = ''page'', limitParam = ''limit''\<rparr>"

definition data_response :: "jsval list \<Rightarrow> int option \<Rightarrow> page_response" where
  "data_response xs n =
     ObjectResponse \<lparr>resp_data = Some xs, resp_items = None, resp_results = None,
                     resp_total = n, resp_totalCount = None, resp_count = None\<rparr>"

definition numbers :: "nat \<Rightarrow> nat \<Rightarrow> jsval list" where
  "numbers a b = map (\<lambda>i. JNum (int i)) [a..<b]"

definition scenario_api :: "page_response api" where
  "scenario_api =
     \<lparr>requiresAuth = False,
      call = (\<lambda>args.
        if args = [page_params scenario_config 1] then Inr (data_response (numbers 0 10) (Some 25))
        else if args = [page_params scenario_config 2] then Inr (data_response (numbers 10 20) (Some 25))
        else if args = [page_params scenario_config 3] then Inr (data_response (numbers 20 25) (Some 25))
        else Inr (data_response [] (Some 25)))\<rparr>"

definition scenario_1 :: page_state where
  "scenario_1 = fetchPage_state scenario_config scenario_api None (useInfiniteScroll_init scenario_config)"

definition scenario_2 :: page_state where
  "scenario_2 = loadMore_state scenario_config scenario_api scenario_1"

definition scenario_3 :: page_state where
  "scenario_3 = loadMore_state scenario_config scenario_api scenario_2"


text \<open>The same collection once it has become empty: every page comes back empty.\<close>

definition emptied_api :: "page_response api" where
  "emptied_api = const_api False (Inr (data_response [] (Some 25)))"


text \<open>Pollers that stop on the first error: one that starts by itself, one that does not.\<close>

definition stopping_config :: poll_config where
  "stopping_config = \<lparr>interval = 10000, immediate = True, stopOnError = True\<rparr>"

definition lazy_config :: poll_config where
  "lazy_config = \<lparr>interval = 10000, immediate = False, stopOnError = True\<rparr>"

definition null_api :: "jsval api" where
  "null_api = const_api False (Inr JNull)"


text \<open>
  Responses of the backend: a 401 and a 500 with a JSON body, and a 401 that declares a
  JSON body that does not parse. \<open>answering r\<close> is a \<open>fetch\<close> that resolves to \<open>r\<close>.
\<close>

definition json_response :: "nat \<Rightarrow> jsval \<Rightarrow> response" where
  "json_response st v =
     \<lparr>status = st, content_type = Some ''application/json'', json = Inr v, text_of = Inr []\<rparr>"




section \<open>Properties of the Call Controller\<close>

lemma call_run_Nil [simp]: "call_run [] s = s"
  by (simp add: call_run_def)

lemma call_run_Cons [simp]: "call_run (e # t) s = call_run t (call_apply e s)"
  by (simp add: call_run_def)

lemma call_run_append [simp]: "call_run (t @ u) s = call_run u (call_run t s)"
  by (simp add: call_run_def)

lemma invocations_Nil [simp]: "invocations [] = []"
  by (simp add: invocations_def)

lemma invocations_Cons [simp]:
  "invocations (e # t) = (case e of Invoke args \<Rightarrow> [args] | _ \<Rightarrow> []) @ invocations t"
  by (simp add: invocations_def)

lemma invocations_append [simp]: "invocations (t @ u) = invocations t @ invocations u"
  by (simp add: invocations_def)

lemma isCacheValid_iff:
  "isCacheValid cfg c now params \<longleftrightarrow>
     cache cfg \<and> (\<exists>ts. timestamp c = Some ts \<and> ts \<noteq> 0 \<and> now - ts \<le> cacheTime cfg)
     \<and> truthy (cached_data c) \<and> JSON_stringify params = JSON_stringify (cached_params c)"
  by (auto simp: isCacheValid_def split: option.splits)

lemma execute_unauthenticated:
  "requiresAuth f \<Longrightarrow> \<not> auth \<Longrightarrow>
     execute cfg f auth now now' c params =
       ([SetError (Some (Error ''Authentication required''))]
          @ (if onError cfg then [OnError (Error ''Authentication required'')] else []),
        Resolved JUndefined)"
  by (simp add: execute_def Let_def)

lemma execute_hit:
  "\<not> (requiresAuth f \<and> \<not> auth) \<Longrightarrow> isCacheValid cfg c now (JArr params) \<Longrightarrow>
     execute cfg f auth now now' c params = ([SetData (cached_data c)], Resolved (cached_data c))"
  by (auto simp: execute_def)

lemma execute_success:
  "\<not> (requiresAuth f \<and> \<not> auth) \<Longrightarrow> \<not> isCacheValid cfg c now (JArr params) \<Longrightarrow>
   call f params = Inr result \<Longrightarrow>
     execute cfg f auth now now' c params =
       ([SetLoading True, SetError None, Invoke params, SetData result]
          @ (if cache cfg
             then [SetCacheRef \<lparr>timestamp = Some now', cached_data = result,
                                 cached_params = JArr params\<rparr>]
             else [])
          @ (if onSuccess cfg then [OnSuccess result] else [])
          @ [SetLoading False],
        Resolved result)"
  by (auto simp: execute_def)

lemma execute_failure:
  "\<not> (requiresAuth f \<and> \<not> auth) \<Longrightarrow> \<not> isCacheValid cfg c now (JArr params) \<Longrightarrow>
   call f params = Inl err \<Longrightarrow>
     execute cfg f auth now now' c params =
       ([SetLoading True, SetError None, Invoke params, SetError (Some err)]
          @ (if onError cfg then [OnError err] else [])
          @ [SetLoading False],
        Rejected err)"
  by (auto simp: execute_def)

lemma execute_miss_invocations:
  "\<not> (requiresAuth f \<and> \<not> auth) \<Longrightarrow> \<not> isCacheValid cfg c now (JArr params) \<Longrightarrow>
     invocations (fst (execute cfg f auth now now' c params)) = [params]"
  by (cases "call f params") (simp_all add: execute_success execute_failure)

lemma expired_not_valid:
  "timestamp c = Some ts \<Longrightarrow> now - ts > cacheTime cfg \<Longrightarrow> \<not> isCacheValid cfg c now p"
  by (simp add: isCacheValid_def)

text \<open>
  The cache ref after one call of \<open>execute\<close>: a new entry when the operation was
  invoked, succeeded and caching is on; the old entry in every other case.
\<close>

lemma execute_state_cacheRef:
  "cacheRef (execute_state cfg f auth now now' params s) =
     (case call f params of
        Inr result \<Rightarrow>
          if cache cfg \<and> \<not> (requiresAuth f \<and> \<not> auth)
               \<and> \<not> isCacheValid cfg (cacheRef s) now (JArr params)
          then \<lparr>timestamp = Some now', cached_data = result, cached_params = JArr params\<rparr>
          else cacheRef s
      | Inl err \<Rightarrow> cacheRef s)"
proof (cases "requiresAuth f \<and> \<not> auth")
  case True
  then show ?thesis
    by (auto simp: execute_state_def execute_unauthenticated split: sum.splits)
next
  case authorised: False
  show ?thesis
  proof (cases "isCacheValid cfg (cacheRef s) now (JArr params)")
    case True
    with authorised show ?thesis
      by (simp add: execute_state_def execute_hit split: sum.splits)
  next
    case False
    with authorised show ?thesis
      by (cases "call f params")
         (simp_all add: execute_state_def execute_success execute_failure)
  qed
qed


lemma show_nat_digit: "n < 10 \<Longrightarrow> show_nat n = [''0123456789'' ! n]"
  by (simp add: show_nat.simps)

text \<open>
  C1 (as amended). For a controller with caching enabled whose authentication check
  passes, \<open>execute(params)\<close> leaves the wrapped operation alone exactly when the cache ref
  holds a non-zero timestamp of age at most \<open>cacheTime\<close>, truthy data, and parameters
  with the same \<open>JSON.stringify\<close> text as the requested ones; otherwise it invokes the
  operation once, with \<open>params\<close>. On such a hit it sets \<open>data\<close> to the cached data and
  resolves to it, and once the entry is older than \<open>cacheTime\<close> the operation is
  invoked again.
\<close>

theorem execute_invokes_iff_cache_invalid:
  assumes "cache cfg" and "\<not> (requiresAuth f \<and> \<not> auth)"
  shows "(invocations (fst (execute cfg f auth now now' c params)) = [] \<longleftrightarrow>
            (\<exists>ts. timestamp c = Some ts \<and> ts \<noteq> 0 \<and> now - ts \<le> cacheTime cfg)
            \<and> truthy (cached_data c)
            \<and> JSON_stringify (JArr params) = JSON_stringify (cached_params c))
       \<and> (invocations (fst (execute cfg f auth now now' c params)) \<noteq> [] \<longrightarrow>
            invocations (fst (execute cfg f auth now now' c params)) = [params])
       \<and> (invocations (fst (execute cfg f auth now now' c params)) = [] \<longrightarrow>
            execute cfg f auth now now' c params =
              ([SetData (cached_data c)], Resolved (cached_data c)))
       \<and> (\<forall>ts. timestamp c = Some ts \<and> now - ts > cacheTime cfg \<longrightarrow>
            invocations (fst (execute cfg f auth now now' c params)) = [params])"
proof (cases "isCacheValid cfg c now (JArr params)")
  case True
  have hit: "execute cfg f auth now now' c params =
               ([SetData (cached_data c)], Resolved (cached_data c))"
    using assms(2) True by (rule execute_hit)
  from True have "(\<exists>ts. timestamp c = Some ts \<and> ts \<noteq> 0 \<and> now - ts \<le> cacheTime cfg)
      \<and> truthy (cached_data c)
      \<and> JSON_stringify (JArr params) = JSON_stringify (cached_params c)"
    by (simp add: isCacheValid_iff)
  moreover from True have "\<forall>ts. \<not> (timestamp c = Some ts \<and> now - ts > cacheTime cfg)"
    using expired_not_valid by blast
  ultimately show ?thesis
    by (simp add: hit)
next
  case False
  have miss: "invocations (fst (execute cfg f auth now now' c params)) = [params]"
    using assms(2) False by (rule execute_miss_invocations)
  from False assms(1) have "\<not> ((\<exists>ts. timestamp c = Some ts \<and> ts \<noteq> 0 \<and> now - ts \<le> cacheTime cfg)
      \<and> truthy (cached_data c)
      \<and> JSON_stringify (JArr params) = JSON_stringify (cached_params c))"
    by (simp only: isCacheValid_iff simp_thms)
  then show ?thesis
    by (simp add: miss)
qed

theorem execute_invokes_iff_cache_invalid_witness:
  "cache caching_config
   \<and> \<not> (requiresAuth (const_api False (Inr (JStr ''v2''))) \<and> \<not> True)
   \<and> execute caching_config (const_api False (Inr (JStr ''v2''))) True 4000 4100 v1_entry id1_params
       = ([SetData (JStr ''v1'')], Resolved (JStr ''v1''))
   \<and> invocations (fst (execute caching_config (const_api False (Inr (JStr ''v2''))) True 6001 6100
        v1_entry id1_params)) = [id1_params]"
proof -
  have h1: "cache caching_config"
    by (simp add: caching_config_def)
  have h2: "\<not> (requiresAuth (const_api False (Inr (JStr ''v2''))) \<and> \<not> True)"
    by simp
  have fresh: "(\<exists>ts. timestamp v1_entry = Some ts \<and> ts \<noteq> 0 \<and> 4000 - ts \<le> cacheTime caching_config)
      \<and> truthy (cached_data v1_entry)
      \<and> JSON_stringify (JArr id1_params) = JSON_stringify (cached_params v1_entry)"
    by (simp add: v1_entry_def caching_config_def)
  have stale: "timestamp v1_entry = Some 1000 \<and> (6001::int) - 1000 > cacheTime caching_config"
    by (simp add: v1_entry_def caching_config_def)
  from execute_invokes_iff_cache_invalid [OF h1 h2, of 4000 4100 v1_entry id1_params] fresh
  have a: "execute caching_config (const_api False (Inr (JStr ''v2''))) True 4000 4100 v1_entry id1_params
       = ([SetData (cached_data v1_entry)], Resolved (cached_data v1_entry))"
    by blast
  from execute_invokes_iff_cache_invalid [OF h1 h2, of 6001 6100 v1_entry id1_params] stale
  have b: "invocations (fst (execute caching_config (const_api False (Inr (JStr ''v2''))) True 6001 6100
        v1_entry id1_params)) = [id1_params]"
    by blast
  from h1 h2 a b show ?thesis
    by (simp add: v1_entry_def)
qed

text \<open>
  C1 as stated fails in three ways. (1) A result that is falsy is stored but never served:
  after \<open>execute({id: 1})\<close> has cached the result \<open>0\<close> at time \<open>1000\<close>, the same call at
  time \<open>4000\<close>, within \<open>cacheTime = 5000\<close>, invokes the operation again. (2) An
  operation that requires authentication is not invoked while the authentication signal
  is false, although the cache is empty. (3) The parameters are compared by their
  \<open>JSON.stringify\<close> text: \<open>execute(undefined)\<close> is served from the entry stored for
  \<open>execute(null)\<close>.
\<close>

theorem execute_cache_iff_counterexample:
  "(cacheRef (execute_state caching_config (const_api False (Inr (JNum 0))) True 900 1000
        id1_params useApiCall_init) = zero_entry
      \<and> cached_params zero_entry = JArr id1_params
      \<and> timestamp zero_entry = Some 1000 \<and> (4000::int) - 1000 \<le> cacheTime caching_config
      \<and> invocations (fst (execute caching_config (const_api False (Inr (JNum 0))) True 4000 4100
           zero_entry id1_params)) = [id1_params])
   \<and> (cacheRef useApiCall_init = empty_cache
      \<and> invocations (fst (execute caching_config (const_api True (Inr (JNum 0))) False 4000 4100
           empty_cache id1_params)) = [])
   \<and> (cached_params null_entry = JArr [JNull] \<and> JUndefined \<noteq> JNull
      \<and> timestamp null_entry = Some 1000
      \<and> execute caching_config (const_api False (Inr (JNum 0))) True 4000 4100 null_entry [JUndefined]
           = ([SetData (JStr ''v1'')], Resolved (JStr ''v1'')))"
  by (simp add: execute_state_def execute_def isCacheValid_def Let_def const_api_def
      caching_config_def id1_params_def zero_entry_def null_entry_def useApiCall_init_def
      empty_cache_def)


text \<open>
  C5. When the wrapped operation declares \<open>requiresAuth\<close> and the ambient
  authentication signal is false, \<open>execute\<close> resolves to \<open>undefined\<close>, its only
  effects are setting \<open>error\<close> to the error "Authentication required" and calling the
  error callback (when one was supplied) with it: the operation is not invoked and
  \<open>loading\<close> is never set.
\<close>

theorem execute_requires_authentication:
  assumes "requiresAuth f" and "\<not> auth"
  shows "snd (execute cfg f auth now now' (cacheRef s) params) = Resolved JUndefined
       \<and> fst (execute cfg f auth now now' (cacheRef s) params) =
            [SetError (Some (Error ''Authentication required''))]
              @ (if onError cfg then [OnError (Error ''Authentication required'')] else [])
       \<and> invocations (fst (execute cfg f auth now now' (cacheRef s) params)) = []
       \<and> (\<forall>b. SetLoading b \<notin> set (fst (execute cfg f auth now now' (cacheRef s) params)))
       \<and> execute_state cfg f auth now now' params s =
            s\<lparr>error := Some (Error ''Authentication required'')\<rparr>"
  by (simp add: execute_state_def execute_unauthenticated [OF assms])

theorem execute_requires_authentication_witness:
  "requiresAuth (const_api True (Inr (JStr ''v2''))) \<and> \<not> False
   \<and> execute caching_config (const_api True (Inr (JStr ''v2''))) False 4000 4100
        (cacheRef useApiCall_init) id1_params
      = ([SetError (Some (Error ''Authentication required'')),
          OnError (Error ''Authentication required'')], Resolved JUndefined)
   \<and> execute_state caching_config (const_api True (Inr (JStr ''v2''))) False 4000 4100 id1_params
        useApiCall_init
      = useApiCall_init\<lparr>error := Some (Error ''Authentication required'')\<rparr>"
proof -
  have h1: "requiresAuth (const_api True (Inr (JStr ''v2'')))"
    by (simp add: const_api_def)
  have h2: "\<not> False"
    by simp
  have "onError caching_config"
    by (simp add: caching_config_def)
  with execute_requires_authentication [OF h1 h2, of caching_config 4000 4100 useApiCall_init id1_params]
  have "execute caching_config (const_api True (Inr (JStr ''v2''))) False 4000 4100
        (cacheRef useApiCall_init) id1_params
      = ([SetError (Some (Error ''Authentication required'')),
          OnError (Error ''Authentication required'')], Resolved JUndefined)
   \<and> execute_state caching_config (const_api True (Inr (JStr ''v2''))) False 4000 4100 id1_params
        useApiCall_init
      = useApiCall_init\<lparr>error := Some (Error ''Authentication required'')\<rparr>"
    by (simp add: prod_eq_iff)
  with h1 show ?thesis
    by simp
qed

text \<open>
  C8. One call of \<open>execute\<close> changes the cache ref only when the wrapped operation was
  invoked, succeeded, and caching is enabled; the entry is then the result, the
  parameters and the time of completion. A cache hit resolves to the cached data and
  leaves the entry, its timestamp included, as it was. A failed invocation leaves the
  entry as it was, so that a later call for which the old entry is valid (same
  parameters, within \<open>cacheTime\<close> of the entry's timestamp) is still served from it.
\<close>

theorem execute_cache_frame:
  "(cacheRef (execute_state cfg f auth now now' params s) \<noteq> cacheRef s \<longrightarrow>
      cache cfg
      \<and> invocations (fst (execute cfg f auth now now' (cacheRef s) params)) = [params]
      \<and> (\<exists>result. call f params = Inr result
            \<and> cacheRef (execute_state cfg f auth now now' params s) =
                \<lparr>timestamp = Some now', cached_data = result, cached_params = JArr params\<rparr>))
   \<and> (\<not> (requiresAuth f \<and> \<not> auth) \<and> isCacheValid cfg (cacheRef s) now (JArr params) \<longrightarrow>
        snd (execute cfg f auth now now' (cacheRef s) params) = Resolved (cached_data (cacheRef s))
        \<and> cacheRef (execute_state cfg f auth now now' params s) = cacheRef s)
   \<and> (\<forall>err. call f params = Inl err \<longrightarrow>
        cacheRef (execute_state cfg f auth now now' params s) = cacheRef s
        \<and> (\<forall>g auth2 t2 t2' params2.
              \<not> (requiresAuth g \<and> \<not> auth2) \<and> isCacheValid cfg (cacheRef s) t2 (JArr params2) \<longrightarrow>
                execute cfg g auth2 t2 t2' (cacheRef (execute_state cfg f auth now now' params s)) params2
                  = ([SetData (cached_data (cacheRef s))], Resolved (cached_data (cacheRef s)))))"
proof (intro conjI impI allI)
  assume changed: "cacheRef (execute_state cfg f auth now now' params s) \<noteq> cacheRef s"
  then obtain result where r: "call f params = Inr result"
    and c: "cache cfg" and g: "\<not> (requiresAuth f \<and> \<not> auth)"
    and m: "\<not> isCacheValid cfg (cacheRef s) now (JArr params)"
    by (auto simp: execute_state_cacheRef split: sum.splits if_splits)
  show "cache cfg"
    by (rule c)
  show "invocations (fst (execute cfg f auth now now' (cacheRef s) params)) = [params]"
    using g m by (rule execute_miss_invocations)
  show "\<exists>result. call f params = Inr result
            \<and> cacheRef (execute_state cfg f auth now now' params s) =
                \<lparr>timestamp = Some now', cached_data = result, cached_params = JArr params\<rparr>"
    using r c g m by (simp add: execute_state_cacheRef)
next
  assume "\<not> (requiresAuth f \<and> \<not> auth) \<and> isCacheValid cfg (cacheRef s) now (JArr params)"
  then show "snd (execute cfg f auth now now' (cacheRef s) params) = Resolved (cached_data (cacheRef s))"
    by (simp add: execute_hit)
next
  assume "\<not> (requiresAuth f \<and> \<not> auth) \<and> isCacheValid cfg (cacheRef s) now (JArr params)"
  then show "cacheRef (execute_state cfg f auth now now' params s) = cacheRef s"
    by (simp add: execute_state_cacheRef split: sum.splits)
next
  fix err assume "call f params = Inl err"
  then show "cacheRef (execute_state cfg f auth now now' params s) = cacheRef s"
    by (simp add: execute_state_cacheRef)
next
  fix err and g :: "jsval api" and auth2 t2 t2' params2
  assume failed: "call f params = Inl err"
    and later: "\<not> (requiresAuth g \<and> \<not> auth2) \<and> isCacheValid cfg (cacheRef s) t2 (JArr params2)"
  from failed have same: "cacheRef (execute_state cfg f auth now now' params s) = cacheRef s"
    by (simp add: execute_state_cacheRef)
  from later show "execute cfg g auth2 t2 t2' (cacheRef (execute_state cfg f auth now now' params s)) params2
      = ([SetData (cached_data (cacheRef s))], Resolved (cached_data (cacheRef s)))"
    unfolding same by (simp add: execute_hit)
qed


theorem execute_cache_frame_witness:
  "call failing_api [JNum 2] = Inl (Error ''boom'')
   \<and> isCacheValid caching_config (cacheRef v1_state) 4000 (JArr id1_params)
   \<and> cacheRef (execute_state caching_config failing_api True 2000 2100 [JNum 2] v1_state) = v1_entry
   \<and> execute caching_config (const_api False (Inr (JStr ''v2''))) True 4000 4100
        (cacheRef (execute_state caching_config failing_api True 2000 2100 [JNum 2] v1_state))
        id1_params
      = ([SetData (JStr ''v1'')], Resolved (JStr ''v1''))"
proof -
  have failed: "call failing_api [JNum 2] = Inl (Error ''boom'')"
    by (simp add: failing_api_def const_api_def)
  have later: "\<not> (requiresAuth (const_api False (Inr (JStr ''v2''))) \<and> \<not> True)
      \<and> isCacheValid caching_config (cacheRef v1_state) 4000 (JArr id1_params)"
    by (simp add: isCacheValid_def const_api_def caching_config_def id1_params_def v1_entry_def
        v1_state_def)
  note frame = execute_cache_frame [of caching_config failing_api True 2000 2100 "[JNum 2]" v1_state]
  from frame failed have kept:
    "cacheRef (execute_state caching_config failing_api True 2000 2100 [JNum 2] v1_state)
       = cacheRef v1_state"
    by blast
  from frame failed later have served:
    "execute caching_config (const_api False (Inr (JStr ''v2''))) True 4000 4100
        (cacheRef (execute_state caching_config failing_api True 2000 2100 [JNum 2] v1_state))
        id1_params
      = ([SetData (cached_data (cacheRef v1_state))], Resolved (cached_data (cacheRef v1_state)))"
    by blast
  have "cacheRef v1_state = v1_entry"
    by (simp add: v1_state_def)
  with failed later kept served show ?thesis
    by (simp add: v1_entry_def)
qed

section \<open>Properties of the Paginator\<close>

lemma page_run_Nil [simp]: "page_run [] s = s"
  by (simp add: page_run_def)

lemma page_run_Cons [simp]: "page_run (e # t) s = page_run t (page_apply e s)"
  by (simp add: page_run_def)

lemma page_run_append [simp]: "page_run (t @ u) s = page_run u (page_run t s)"
  by (simp add: page_run_def)

lemma fetchPage_noop:
  "loading s \<or> \<not> hasMore s \<Longrightarrow> fetchPage cfg f s arg = ([], Resolved Nothing)"
  by (auto simp: fetchPage_def)

lemma fetchPage_failed:
  "\<not> loading s \<Longrightarrow> hasMore s \<Longrightarrow> call f [page_params cfg n] = Inl err \<Longrightarrow>
     fetchPage cfg f s (Some n) =
       ([SetLoading True, SetError None, Invoke [page_params cfg n], SetError (Some err),
         SetLoading False], Rejected err)"
  by (simp add: fetchPage_def)

lemma fetchPage_no_response:
  "\<not> loading s \<Longrightarrow> hasMore s \<Longrightarrow> call f [page_params cfg n] = Inr response \<Longrightarrow>
   newItems_of response = Inl err \<Longrightarrow>
     fetchPage cfg f s (Some n) =
       ([SetLoading True, SetError None, Invoke [page_params cfg n], SetError (Some err),
         SetLoading False], Rejected err)"
  by (simp add: fetchPage_def)

lemma fetchPage_page:
  "\<not> loading s \<Longrightarrow> hasMore s \<Longrightarrow> call f [page_params cfg n] = Inr response \<Longrightarrow>
   newItems_of response = Inr (Items xs) \<Longrightarrow> xs \<noteq> [] \<Longrightarrow>
     fetchPage cfg f s (Some n) =
       ([SetLoading True, SetError None, Invoke [page_params cfg n],
         if n = initialPage cfg then SetItems xs else AppendItems xs,
         case total_of response of
           Some t \<Rightarrow> SetHasMore (int (length (items s)) + int (length xs) < t)
         | None \<Rightarrow> SetHasMore (int (length xs) \<ge> pageSize cfg),
         SetPage n, SetLoading False],
        Resolved (Items xs))"
  by (cases xs) (auto simp: fetchPage_def split: option.splits)

lemma fetchPage_empty:
  "\<not> loading s \<Longrightarrow> hasMore s \<Longrightarrow> call f [page_params cfg n] = Inr response \<Longrightarrow>
   newItems_of response = Inr v \<Longrightarrow> v = Items [] \<or> (\<exists>r. v = Whole r) \<Longrightarrow>
     fetchPage cfg f s (Some n) =
       ([SetLoading True, SetError None, Invoke [page_params cfg n], SetHasMore False,
         SetLoading False], Resolved v)"
  by (auto simp: fetchPage_def)

lemma fetchPage_default_arg: "fetchPage cfg f s None = fetchPage cfg f s (Some (page s))"
  by (simp add: fetchPage_def)

lemma loadMore_eq:
  "loadMore cfg f s = fetchPage cfg f s (Some (page s + 1))"
  by (simp add: loadMore_def fetchPage_noop)

lemma refresh_eq:
  "refresh cfg f s =
     (SetHasMore True # fst (fetchPage cfg f s (Some (initialPage cfg))),
      snd (fetchPage cfg f s (Some (initialPage cfg))))"
  by (simp add: refresh_def split: prod.splits)

text \<open>The state after a page was received: replaced or appended, and the new \<open>hasMore\<close>.\<close>

lemma fetchPage_state_page:
  assumes "\<not> loading s" and "hasMore s" and "call f [page_params cfg n] = Inr response"
    and "newItems_of response = Inr (Items xs)" and "xs \<noteq> []"
  shows "fetchPage_state cfg f (Some n) s =
           \<lparr>loading = False, error = None,
            items = (if n = initialPage cfg then xs else items s @ xs),
            page = n,
            hasMore = (case total_of response of
                         Some t \<Rightarrow> int (length (items s)) + int (length xs) < t
                       | None \<Rightarrow> int (length xs) \<ge> pageSize cfg)\<rparr>"
  by (cases "total_of response")
     (simp_all add: fetchPage_state_def fetchPage_page [OF assms])

lemma fetchPage_state_empty:
  assumes "\<not> loading s" and "hasMore s" and "call f [page_params cfg n] = Inr response"
    and "newItems_of response = Inr v" and "v = Items [] \<or> (\<exists>r. v = Whole r)"
  shows "fetchPage_state cfg f (Some n) s = s\<lparr>loading := False, error := None, hasMore := False\<rparr>"
  by (simp add: fetchPage_state_def fetchPage_empty [OF assms])

lemma fetchPage_state_noop:
  "loading s \<or> \<not> hasMore s \<Longrightarrow> fetchPage_state cfg f arg s = s"
  by (simp add: fetchPage_state_def fetchPage_noop)

lemma numbers_length [simp]: "length (numbers a b) = b - a"
  by (simp add: numbers_def)

lemma numbers_Nil_iff [simp]: "numbers a b = [] \<longleftrightarrow> b \<le> a"
  by (auto simp: numbers_def)

lemma numbers_append: "a \<le> b \<Longrightarrow> b \<le> c \<Longrightarrow> numbers a b @ numbers b c = numbers a c"
  using upt_add_eq_append [of a b "c - b"] by (simp add: numbers_def)

lemma newItems_of_data_response [simp]: "newItems_of (data_response xs n) = Inr (Items xs)"
  by (simp add: newItems_of_def data_response_def)

lemma total_of_data_response [simp]:
  "total_of (data_response xs n) = (case n of Some k \<Rightarrow> if k = 0 then None else Some k | None \<Rightarrow> None)"
  by (simp add: total_of_def data_response_def truthy_count_def split: option.splits)

lemma scenario_api_call:
  "call scenario_api [page_params scenario_config 1] = Inr (data_response (numbers 0 10) (Some 25))"
  "call scenario_api [page_params scenario_config 2] = Inr (data_response (numbers 10 20) (Some 25))"
  "call scenario_api [page_params scenario_config 3] = Inr (data_response (numbers 20 25) (Some 25))"
  by (simp_all add: scenario_api_def page_params_def scenario_config_def)

lemma scenario_1_eq:
  "scenario_1 = \<lparr>loading = False, error = None, items = numbers 0 10, page = 1, hasMore = True\<rparr>"
proof -
  let ?s = "useInfiniteScroll_init scenario_config"
  have "fetchPage_state scenario_config scenario_api (Some 1) ?s =
          \<lparr>loading = False, error = None, items = numbers 0 10, page = 1, hasMore = True\<rparr>"
    using fetchPage_state_page [where s = ?s and xs = "numbers 0 10", OF _ _ scenario_api_call(1)]
    by (simp add: useInfiniteScroll_init_def scenario_config_def)
  then show ?thesis
    by (simp add: scenario_1_def fetchPage_state_def fetchPage_default_arg
        useInfiniteScroll_init_def scenario_config_def)
qed

lemma scenario_2_eq:
  "scenario_2 = \<lparr>loading = False, error = None, items = numbers 0 20, page = 2, hasMore = True\<rparr>"
proof -
  have "fetchPage_state scenario_config scenario_api (Some 2) scenario_1 =
          \<lparr>loading = False, error = None, items = numbers 0 20, page = 2, hasMore = True\<rparr>"
    using fetchPage_state_page [where s = scenario_1 and xs = "numbers 10 20",
        OF _ _ scenario_api_call(2)]
    by (simp add: scenario_1_eq scenario_config_def numbers_append)
  then show ?thesis
    by (simp add: scenario_2_def loadMore_state_def loadMore_eq fetchPage_state_def scenario_1_eq)
qed

lemma scenario_3_eq:
  "scenario_3 = \<lparr>loading = False, error = None, items = numbers 0 25, page = 3, hasMore = False\<rparr>"
proof -
  have "fetchPage_state scenario_config scenario_api (Some 3) scenario_2 =
          \<lparr>loading = False, error = None, items = numbers 0 25, page = 3, hasMore = False\<rparr>"
    using fetchPage_state_page [where s = scenario_2 and xs = "numbers 20 25",
        OF _ _ scenario_api_call(3)]
    by (simp add: scenario_2_eq scenario_config_def numbers_append)
  then show ?thesis
    by (simp add: scenario_3_def loadMore_state_def loadMore_eq fetchPage_state_def scenario_2_eq)
qed


lemma refresh_state_noop:
  "loading s \<or> \<not> hasMore s \<Longrightarrow> refresh_state cfg f s = s\<lparr>hasMore := True\<rparr>"
  by (simp add: refresh_state_def refresh_eq fetchPage_noop)

lemma refresh_state_fetch:
  "\<not> loading s \<Longrightarrow> hasMore s \<Longrightarrow>
     refresh_state cfg f s = fetchPage_state cfg f (Some (initialPage cfg)) s"
proof -
  assume a: "\<not> loading s" "hasMore s"
  have same: "s\<lparr>hasMore := True\<rparr> = s"
    using a by simp
  show ?thesis
    by (simp add: refresh_state_def refresh_eq fetchPage_state_def same)
qed

text \<open>
  When the paginator is idle with \<open>hasMore\<close> set and the first page comes back
  non-empty, \<open>refresh\<close> replaces the accumulated items by that page.
\<close>

lemma refresh_replaces_items:
  assumes "\<not> loading s" and "hasMore s"
    and "call f [page_params cfg (initialPage cfg)] = Inr response"
    and "newItems_of response = Inr (Items xs)" and "xs \<noteq> []"
  shows "items (refresh_state cfg f s) = xs \<and> page (refresh_state cfg f s) = initialPage cfg
       \<and> invocations (fst (refresh cfg f s)) = [[page_params cfg (initialPage cfg)]]"
  using assms
  by (simp add: refresh_state_fetch fetchPage_state_page [OF assms] refresh_eq
      fetchPage_page [OF assms] split: option.splits)

text \<open>
  Where \<open>hasMore\<close> is computed as the specification has it. When a fetch returns a
  non-empty page that is appended (or that is the initial page fetched into an empty
  list), the accumulated items afterwards are the old ones followed by the page, and
  \<open>hasMore\<close> is: (accumulated length) \<open><\<close> total when the response carries a
  non-zero total count, and (page length) \<open>\<ge>\<close> \<open>pageSize\<close> otherwise. When the page
  is empty, \<open>hasMore\<close> is false.
\<close>

lemma fetchPage_hasMore_appending:
  assumes "\<not> loading s" and "hasMore s"
    and "call f [page_params cfg n] = Inr response"
    and "newItems_of response = Inr (Items xs)"
  shows "(xs \<noteq> [] \<and> (n \<noteq> initialPage cfg \<or> items s = []) \<longrightarrow>
            items (fetchPage_state cfg f (Some n) s) = items s @ xs
            \<and> (\<forall>t. total_of response = Some t \<longrightarrow>
                 hasMore (fetchPage_state cfg f (Some n) s) =
                   (int (length (items (fetchPage_state cfg f (Some n) s))) < t))
            \<and> (total_of response = None \<longrightarrow>
                 hasMore (fetchPage_state cfg f (Some n) s) = (int (length xs) \<ge> pageSize cfg)))
       \<and> (xs = [] \<longrightarrow> hasMore (fetchPage_state cfg f (Some n) s) = False)"
proof (intro conjI impI)
  assume "xs = []"
  then show "hasMore (fetchPage_state cfg f (Some n) s) = False"
    using fetchPage_state_empty [OF assms] by simp
next
  assume "xs \<noteq> [] \<and> (n \<noteq> initialPage cfg \<or> items s = [])"
  then have ne: "xs \<noteq> []" and app: "(if n = initialPage cfg then xs else items s @ xs) = items s @ xs"
    by auto
  note st = fetchPage_state_page [OF assms ne]
  show "items (fetchPage_state cfg f (Some n) s) = items s @ xs"
    by (simp add: st app)
  show "\<forall>t. total_of response = Some t \<longrightarrow>
          hasMore (fetchPage_state cfg f (Some n) s) =
            (int (length (items (fetchPage_state cfg f (Some n) s))) < t)"
    by (simp add: st app)
  show "total_of response = None \<Longrightarrow>
          hasMore (fetchPage_state cfg f (Some n) s) = (int (length xs) \<ge> pageSize cfg)"
    by (simp add: st)
qed

text \<open>
  The scenario of the specification: with \<open>pageSize = 10\<close> and \<open>total = 25\<close>, the
  pages 1, 2 and 3 fetched in order give the accumulated lengths 10, 20 and 25 and
  \<open>hasMore\<close> true, true and false.
\<close>

lemma scenario_hasMore:
  "length (items scenario_1) = 10 \<and> hasMore scenario_1
   \<and> length (items scenario_2) = 20 \<and> hasMore scenario_2
   \<and> scenario_3 = fetchPage_state scenario_config scenario_api (Some 3) scenario_2
   \<and> length (items scenario_3) = 25 \<and> \<not> hasMore scenario_3"
proof -
  have idle: "\<not> loading scenario_2" and more: "hasMore scenario_2"
    by (simp_all add: scenario_2_eq)
  have items: "newItems_of (data_response (numbers 20 25) (Some 25)) = Inr (Items (numbers 20 25))"
    by simp
  have step: "scenario_3 = fetchPage_state scenario_config scenario_api (Some 3) scenario_2"
    by (simp add: scenario_3_def loadMore_state_def loadMore_eq fetchPage_state_def scenario_2_eq)
  have "numbers 20 25 \<noteq> [] \<and> (3 \<noteq> initialPage scenario_config \<or> items scenario_2 = [])"
    by (simp add: scenario_config_def)
  with fetchPage_hasMore_appending [OF idle more scenario_api_call(3) items]
  have "items scenario_3 = items scenario_2 @ numbers 20 25"
    and "hasMore scenario_3 = (int (length (items scenario_3)) < 25)"
    unfolding step by simp_all
  then have "length (items scenario_3) = 25 \<and> \<not> hasMore scenario_3"
    by (simp add: scenario_2_eq)
  with step show ?thesis
    by (simp add: scenario_1_eq scenario_2_eq)
qed

text \<open>
  C2, at the input where the code departs from it. After the first two pages of the
  scenario 20 of the 25 items are accumulated and \<open>hasMore\<close> is true. \<open>refresh()\<close>
  fetches the initial page, which comes back with 10 items and \<open>total = 25\<close>. The items
  are replaced by the page, so 10 items are accumulated, fewer than the total; but
  \<open>hasMore\<close> is computed from \<open>items.length + newItems.length\<close>, with the length of
  the list that was just replaced: 20 + 10 is not below 25, and \<open>hasMore\<close> ends false.
\<close>

theorem refresh_hasMore_counts_replaced_items:
  "length (items scenario_2) = 20 \<and> hasMore scenario_2 \<and> \<not> loading scenario_2
   \<and> call scenario_api [page_params scenario_config (initialPage scenario_config)]
       = Inr (data_response (numbers 0 10) (Some 25))
   \<and> total_of (data_response (numbers 0 10) (Some 25)) = Some 25
   \<and> invocations (fst (refresh scenario_config scenario_api scenario_2))
       = [[page_params scenario_config (initialPage scenario_config)]]
   \<and> items (refresh_state scenario_config scenario_api scenario_2) = numbers 0 10
   \<and> int (length (items (refresh_state scenario_config scenario_api scenario_2))) < 25
   \<and> hasMore (refresh_state scenario_config scenario_api scenario_2) = False"
proof -
  have idle: "\<not> loading scenario_2" and more: "hasMore scenario_2"
    by (simp_all add: scenario_2_eq)
  have first: "initialPage scenario_config = 1"
    by (simp add: scenario_config_def)
  have c: "call scenario_api [page_params scenario_config (initialPage scenario_config)]
       = Inr (data_response (numbers 0 10) (Some 25))"
    using scenario_api_call(1) by (simp add: first)
  have v: "newItems_of (data_response (numbers 0 10) (Some 25)) = Inr (Items (numbers 0 10))"
    by simp
  have ne: "numbers 0 10 \<noteq> []"
    by simp
  note replaced = refresh_replaces_items [OF idle more c v ne]
  have "hasMore (fetchPage_state scenario_config scenario_api
          (Some (initialPage scenario_config)) scenario_2) = False"
    unfolding fetchPage_state_page [OF idle more c v ne] by (simp add: scenario_2_eq)
  then have "hasMore (refresh_state scenario_config scenario_api scenario_2) = False"
    by (simp only: refresh_state_fetch [OF idle more])
  with replaced idle more c show ?thesis
    by (simp add: scenario_2_eq)
qed

text \<open>
  C3, at the input where the code departs from it. After the three pages of the scenario
  the paginator is exhausted (\<open>hasMore = false\<close>). \<open>refresh()\<close> then only sets
  \<open>hasMore\<close>: the \<open>fetchPage\<close> it calls belongs to the render in which \<open>hasMore\<close> is
  false and returns at its guard, so the operation is not invoked and the 25 accumulated
  items stay, although the first page would come back with 10 items.
\<close>

theorem refresh_exhausted_does_not_fetch:
  "hasMore scenario_3 = False
   \<and> call scenario_api [page_params scenario_config (initialPage scenario_config)]
       = Inr (data_response (numbers 0 10) (Some 25))
   \<and> refresh scenario_config scenario_api scenario_3 = ([SetHasMore True], Resolved Nothing)
   \<and> invocations (fst (refresh scenario_config scenario_api scenario_3)) = []
   \<and> items (refresh_state scenario_config scenario_api scenario_3) = numbers 0 25
   \<and> hasMore (refresh_state scenario_config scenario_api scenario_3) = True"
proof -
  have "refresh scenario_config scenario_api scenario_3 = ([SetHasMore True], Resolved Nothing)"
    by (simp add: refresh_eq fetchPage_noop scenario_3_eq)
  moreover have "call scenario_api [page_params scenario_config (initialPage scenario_config)]
       = Inr (data_response (numbers 0 10) (Some 25))"
    using scenario_api_call(1) by (simp add: scenario_config_def)
  ultimately show ?thesis
    by (simp add: refresh_state_def scenario_3_eq)
qed

text \<open>
  C9. A fetch whose response holds an empty item list, or none of the three list
  properties, sets \<open>hasMore\<close> to false, clears \<open>error\<close> and \<open>loading\<close>, and changes
  nothing else: the accumulated items and the page number stay, also when the page
  fetched is the initial page. So a \<open>refresh\<close> against a collection that has become
  empty keeps the accumulated items and the page number, in every state.
\<close>

theorem fetchPage_empty_frame:
  assumes "call f [page_params cfg n] = Inr response"
    and "newItems_of response = Inr v"
    and "v = Items [] \<or> (\<exists>r. v = Whole r)"
  shows "(\<not> loading s \<and> hasMore s \<longrightarrow>
            fetchPage_state cfg f (Some n) s = s\<lparr>loading := False, error := None, hasMore := False\<rparr>
            \<and> invocations (fst (fetchPage cfg f s (Some n))) = [[page_params cfg n]])
       \<and> items (fetchPage_state cfg f (Some n) s) = items s
       \<and> page (fetchPage_state cfg f (Some n) s) = page s
       \<and> (n = initialPage cfg \<longrightarrow>
            items (refresh_state cfg f s) = items s \<and> page (refresh_state cfg f s) = page s)"
proof (cases "\<not> loading s \<and> hasMore s")
  case True
  then have idle: "\<not> loading s" and more: "hasMore s"
    by simp_all
  note st = fetchPage_state_empty [OF idle more assms]
  have inv: "invocations (fst (fetchPage cfg f s (Some n))) = [[page_params cfg n]]"
    by (simp add: fetchPage_empty [OF idle more assms])
  have "n = initialPage cfg \<longrightarrow>
      items (refresh_state cfg f s) = items s \<and> page (refresh_state cfg f s) = page s"
  proof
    assume "n = initialPage cfg"
    then have "refresh_state cfg f s = fetchPage_state cfg f (Some n) s"
      using refresh_state_fetch [OF idle more] by simp
    then show "items (refresh_state cfg f s) = items s \<and> page (refresh_state cfg f s) = page s"
      by (simp only: st) simp
  qed
  with inv show ?thesis
    by (simp add: st)
next
  case False
  then have noop: "loading s \<or> \<not> hasMore s"
    by simp
  show ?thesis
    using noop by (auto simp: fetchPage_state_noop [OF noop] refresh_state_noop [OF noop])
qed

theorem fetchPage_empty_frame_witness:
  "call emptied_api [page_params scenario_config 1] = Inr (data_response [] (Some 25))
   \<and> newItems_of (data_response [] (Some 25)) = Inr (Items [])
   \<and> \<not> loading scenario_2 \<and> hasMore scenario_2 \<and> 1 = initialPage scenario_config
   \<and> fetchPage_state scenario_config emptied_api (Some 1) scenario_2
       = \<lparr>loading = False, error = None, items = numbers 0 20, page = 2, hasMore = False\<rparr>
   \<and> items (refresh_state scenario_config emptied_api scenario_2) = numbers 0 20
   \<and> page (refresh_state scenario_config emptied_api scenario_2) = 2"
proof -
  have c: "call emptied_api [page_params scenario_config 1] = Inr (data_response [] (Some 25))"
    by (simp add: emptied_api_def const_api_def)
  have v: "newItems_of (data_response [] (Some 25)) = Inr (Items [])"
    by simp
  have e: "Items [] = Items [] \<or> (\<exists>r. Items [] = Whole r)"
    by simp
  have st: "\<not> loading scenario_2 \<and> hasMore scenario_2" and first: "1 = initialPage scenario_config"
    by (simp_all add: scenario_2_eq scenario_config_def)
  from fetchPage_empty_frame [OF c v e, of scenario_2] st first
  have "fetchPage_state scenario_config emptied_api (Some 1) scenario_2
          = scenario_2\<lparr>loading := False, error := None, hasMore := False\<rparr>
      \<and> items (refresh_state scenario_config emptied_api scenario_2) = items scenario_2
      \<and> page (refresh_state scenario_config emptied_api scenario_2) = page scenario_2"
    by simp
  with c v st first show ?thesis
    by (simp add: scenario_2_eq)
qed

section \<open>Properties of the Poller\<close>

lemma poll_run_Nil [simp]: "poll_run [] w = w"
  by (simp add: poll_run_def)

lemma poll_run_Cons [simp]: "poll_run (e # t) w = poll_run t (poll_apply e w)"
  by (simp add: poll_run_def)

lemma poll_run_append [simp]: "poll_run (t @ u) w = poll_run u (poll_run t w)"
  by (simp add: poll_run_def)

lemma schedules_Nil [simp]: "schedules [] = []"
  by (simp add: schedules_def)

lemma schedules_Cons [simp]:
  "schedules (e # t) = (case e of SetInterval h \<Rightarrow> [h] | _ \<Rightarrow> []) @ schedules t"
  by (simp add: schedules_def)

lemma schedules_append [simp]: "schedules (t @ u) = schedules t @ schedules u"
  by (simp add: schedules_def)

lemma clearTimer_at_rest: "timerRef w = None \<Longrightarrow> clearTimer w = []"
  by (simp add: clearTimer_def)

lemma latest_render_never_started: "never_started w \<Longrightarrow> \<not> latest_render w"
  by (cases "rendered w") (auto simp: never_started_def at_rest_def latest_render_def)

text \<open>
  A poller that was never started stays so under every event but a call of
  \<open>startPolling\<close>, and the event neither schedules an interval nor invokes the
  operation.
\<close>

lemma never_started_step:
  assumes "never_started w" and "ev \<noteq> StartPolling True" and "ev \<noteq> StartPolling False"
  shows "never_started (poll_next cfg f auth ev w)
       \<and> schedules (poll_step cfg f auth ev w) = []
       \<and> invocations (poll_step cfg f auth ev w) = []"
proof (cases ev)
  case (Settle r)
  with assms show ?thesis
    by (cases r)
       (auto simp: never_started_def at_rest_def poll_next_def executePoll_resume_def
             clearTimer_def)
next
  case (StartPolling b)
  with assms show ?thesis
    by (cases b) simp_all
next
  case Mount
  with assms latest_render_never_started [OF assms(1)] show ?thesis
    by (simp add: never_started_def at_rest_def poll_next_def polling_effect_def)
next
  case Rerun
  with assms latest_render_never_started [OF assms(1)] show ?thesis
    by (simp add: never_started_def at_rest_def poll_next_def polling_effect_def
        polling_cleanup_def clearTimer_def)
qed (use assms in \<open>auto simp: never_started_def at_rest_def poll_next_def polling_cleanup_def
      clearTimer_def stopPolling_def\<close>)

lemma never_started_events:
  "never_started w \<Longrightarrow> StartPolling True \<notin> set evs \<Longrightarrow> StartPolling False \<notin> set evs \<Longrightarrow>
     never_started (snd (poll_events cfg f auth evs w))
     \<and> schedules (fst (poll_events cfg f auth evs w)) = []
     \<and> invocations (fst (poll_events cfg f auth evs w)) = []"
proof (induction evs arbitrary: w)
  case Nil
  then show ?case by simp
next
  case (Cons ev evs)
  from Cons.prems have ev: "ev \<noteq> StartPolling True" "ev \<noteq> StartPolling False"
    and rest: "StartPolling True \<notin> set evs" "StartPolling False \<notin> set evs"
    by auto
  note step = never_started_step [OF Cons.prems(1) ev, of cfg f auth]
  from step have "never_started (poll_next cfg f auth ev w)"
    by simp
  from Cons.IH [OF this rest] step show ?case
    by (simp add: split_beta)
qed

text \<open>
  When the timer ref holds the only live interval, a failing invocation of a poller with
  \<open>stopOnError\<close> leaves it at rest.
\<close>

lemma failing_settle_stops:
  assumes "stopOnError cfg" and "timer_owned w" and "0 < in_flight w"
  shows "at_rest (poll_next cfg f auth (Settle (Inl err)) w)
       \<and> error (poll_next cfg f auth (Settle (Inl err)) w) = Some err
       \<and> poll_step cfg f auth (Settle (Inl err)) w =
            [SetError (Some err), SetIsPolling False] @ clearTimer w @ [SetLoading False]"
  using assms
  by (auto simp: at_rest_def timer_owned_def poll_next_def executePoll_resume_def clearTimer_def
           split: option.splits)

text \<open>
  C6, at the input where the code departs from it. A poller with \<open>immediate = false\<close>
  and \<open>stopOnError\<close> is mounted, and one handler of the component calls
  \<open>startPolling()\<close> twice. Both calls belong to the render in which \<open>isPolling\<close> is
  false, so the second passes the guard \<open>isPolling && timerRef.current\<close> and overwrites
  the timer ref: interval 1 stays live and nothing refers to it. The component renders,
  the effect restarts polling on interval 3, and a tick of it fails. The failing tick
  sets \<open>isPolling\<close> to false and clears interval 3, the one in the ref; interval 1 is
  still live, and when it fires after that the operation is invoked again.
\<close>

theorem stopOnError_leaked_interval_keeps_ticking:
  "stopOnError lazy_config
   \<and> snd (poll_events lazy_config null_api True
        [Mount, StartPolling False, StartPolling False, Render, Rerun, Tick 3]
        (useApiPolling_init lazy_config))
       = \<lparr>loading = True, error = None, data = JNull, isPolling = True,
          rendered = [True, False], timerRef = Some 3, intervals = [3, 1], last_handle = 3,
          in_flight = 1\<rparr>
   \<and> poll_events lazy_config null_api True [Settle (Inl (Error ''boom''))]
        \<lparr>loading = True, error = None, data = JNull, isPolling = True,
          rendered = [True, False], timerRef = Some 3, intervals = [3, 1], last_handle = 3,
          in_flight = 1\<rparr>
       = ([SetError (Some (Error ''boom'')), SetIsPolling False, ClearInterval 3,
           SetTimerRef None, SetLoading False],
          \<lparr>loading = False, error = Some (Error ''boom''), data = JNull, isPolling = False,
            rendered = [True, False], timerRef = None, intervals = [1], last_handle = 3,
            in_flight = 0\<rparr>)
   \<and> fst (poll_events lazy_config null_api True [Render, Rerun, Tick 1]
        \<lparr>loading = False, error = Some (Error ''boom''), data = JNull, isPolling = False,
          rendered = [True, False], timerRef = None, intervals = [1], last_handle = 3,
          in_flight = 0\<rparr>)
       = [SetLoading True, SetError None, Invoke []]"
  by (simp add: poll_next_def polling_effect_def polling_cleanup_def clearTimer_def
      startPolling_def executePoll_begin_def executePoll_resume_def latest_render_def
      lazy_config_def null_api_def const_api_def useApiPolling_init_def)

text \<open>
  C10. \<open>isPolling\<close> starts as \<open>immediate\<close>. With \<open>immediate\<close> set, the first run of the
  polling effect alone sets \<open>isPolling\<close>, makes the immediate call of \<open>executePoll\<close>
  (which invokes the operation once when the authentication check passes) and schedules
  the interval, which is then live and held by the timer ref. Without \<open>immediate\<close>, no
  sequence of events free of a call of \<open>startPolling\<close> schedules an interval or invokes
  the operation, while a call of \<open>startPolling\<close> schedules one.
\<close>

theorem polling_starts_on_mount_iff_immediate:
  "isPolling (useApiPolling_init cfg) = immediate cfg
   \<and> (immediate cfg \<longrightarrow>
        poll_step cfg f auth Mount (useApiPolling_init cfg) =
          [SetIsPolling True] @ executePoll_begin f auth @ [SetInterval 1, SetTimerRef (Some 1)]
        \<and> isPolling (poll_next cfg f auth Mount (useApiPolling_init cfg))
        \<and> intervals (poll_next cfg f auth Mount (useApiPolling_init cfg)) = [1]
        \<and> timerRef (poll_next cfg f auth Mount (useApiPolling_init cfg)) = Some 1
        \<and> (\<not> (requiresAuth f \<and> \<not> auth) \<longrightarrow>
              invocations (poll_step cfg f auth Mount (useApiPolling_init cfg)) = [[]]))
   \<and> (\<not> immediate cfg \<longrightarrow>
        (\<forall>evs. StartPolling True \<notin> set evs \<and> StartPolling False \<notin> set evs \<longrightarrow>
           schedules (fst (poll_events cfg f auth evs (useApiPolling_init cfg))) = []
           \<and> invocations (fst (poll_events cfg f auth evs (useApiPolling_init cfg))) = []
           \<and> intervals (snd (poll_events cfg f auth evs (useApiPolling_init cfg))) = [])
        \<and> schedules (poll_step cfg f auth (StartPolling False) (useApiPolling_init cfg)) = [1])"
proof (intro conjI impI)
  show "isPolling (useApiPolling_init cfg) = immediate cfg"
    by (simp add: useApiPolling_init_def)
next
  assume imm: "immediate cfg"
  then show step: "poll_step cfg f auth Mount (useApiPolling_init cfg) =
          [SetIsPolling True] @ executePoll_begin f auth @ [SetInterval 1, SetTimerRef (Some 1)]"
    by (simp add: polling_effect_def clearTimer_def startPolling_def useApiPolling_init_def
        latest_render_def)
  have run: "poll_next cfg f auth Mount (useApiPolling_init cfg) =
          poll_run (executePoll_begin f auth @ [SetInterval 1, SetTimerRef (Some 1)])
            ((useApiPolling_init cfg)\<lparr>isPolling := True\<rparr>)"
    by (simp add: poll_next_def step del: poll_step.simps)
  show "isPolling (poll_next cfg f auth Mount (useApiPolling_init cfg))"
    unfolding run by (simp add: executePoll_begin_def useApiPolling_init_def)
  show "intervals (poll_next cfg f auth Mount (useApiPolling_init cfg)) = [1]"
    unfolding run by (simp add: executePoll_begin_def useApiPolling_init_def)
  show "timerRef (poll_next cfg f auth Mount (useApiPolling_init cfg)) = Some 1"
    unfolding run by (simp add: executePoll_begin_def useApiPolling_init_def)
  show "invocations (poll_step cfg f auth Mount (useApiPolling_init cfg)) = [[]]"
    if "\<not> (requiresAuth f \<and> \<not> auth)"
    using that by (auto simp: step executePoll_begin_def simp del: poll_step.simps)
next
  assume lazy: "\<not> immediate cfg"
  then have rest: "never_started (useApiPolling_init cfg)"
    by (simp add: never_started_def at_rest_def useApiPolling_init_def)
  show "\<forall>evs. StartPolling True \<notin> set evs \<and> StartPolling False \<notin> set evs \<longrightarrow>
           schedules (fst (poll_events cfg f auth evs (useApiPolling_init cfg))) = []
           \<and> invocations (fst (poll_events cfg f auth evs (useApiPolling_init cfg))) = []
           \<and> intervals (snd (poll_events cfg f auth evs (useApiPolling_init cfg))) = []"
    using never_started_events [OF rest, of _ cfg f auth]
    by (simp add: never_started_def at_rest_def)
  from lazy show "schedules (poll_step cfg f auth (StartPolling False) (useApiPolling_init cfg)) = [1]"
    by (simp add: startPolling_def useApiPolling_init_def)
qed

theorem polling_starts_on_mount_iff_immediate_witness:
  "immediate stopping_config \<and> \<not> (requiresAuth null_api \<and> \<not> True)
   \<and> poll_step stopping_config null_api True Mount (useApiPolling_init stopping_config)
       = [SetIsPolling True, SetLoading True, SetError None, Invoke [], SetInterval 1,
          SetTimerRef (Some 1)]
   \<and> invocations (poll_step stopping_config null_api True Mount (useApiPolling_init stopping_config))
       = [[]]
   \<and> intervals (poll_next stopping_config null_api True Mount (useApiPolling_init stopping_config)) = [1]
   \<and> \<not> immediate lazy_config \<and> \<not> isPolling (useApiPolling_init lazy_config)
   \<and> StartPolling True \<notin> set [Mount, Tick 1, Render, Rerun, StopPolling, Settle (Inr JNull)]
   \<and> StartPolling False \<notin> set [Mount, Tick 1, Render, Rerun, StopPolling, Settle (Inr JNull)]
   \<and> schedules (fst (poll_events lazy_config null_api True
        [Mount, Tick 1, Render, Rerun, StopPolling, Settle (Inr JNull)]
        (useApiPolling_init lazy_config))) = []
   \<and> invocations (fst (poll_events lazy_config null_api True
        [Mount, Tick 1, Render, Rerun, StopPolling, Settle (Inr JNull)]
        (useApiPolling_init lazy_config))) = []"
proof -
  have imm: "immediate stopping_config" and lazy: "\<not> immediate lazy_config"
    by (simp_all add: stopping_config_def lazy_config_def)
  have authorised: "\<not> (requiresAuth null_api \<and> \<not> True)"
    by simp
  have quiet: "StartPolling True \<notin> set [Mount, Tick 1, Render, Rerun, StopPolling, Settle (Inr JNull)]
      \<and> StartPolling False \<notin> set [Mount, Tick 1, Render, Rerun, StopPolling, Settle (Inr JNull)]"
    by simp
  have beg: "executePoll_begin null_api True = [SetLoading True, SetError None, Invoke []]"
    by (simp add: executePoll_begin_def)
  from polling_starts_on_mount_iff_immediate [of stopping_config null_api True] imm authorised
  have a: "poll_step stopping_config null_api True Mount (useApiPolling_init stopping_config)
       = [SetIsPolling True] @ executePoll_begin null_api True @ [SetInterval 1, SetTimerRef (Some 1)]
      \<and> invocations (poll_step stopping_config null_api True Mount (useApiPolling_init stopping_config))
       = [[]]
      \<and> intervals (poll_next stopping_config null_api True Mount (useApiPolling_init stopping_config)) = [1]"
    by blast
  from polling_starts_on_mount_iff_immediate [of lazy_config null_api True] lazy quiet
  have b: "\<not> isPolling (useApiPolling_init lazy_config)
      \<and> schedules (fst (poll_events lazy_config null_api True
        [Mount, Tick 1, Render, Rerun, StopPolling, Settle (Inr JNull)]
        (useApiPolling_init lazy_config))) = []
      \<and> invocations (fst (poll_events lazy_config null_api True
        [Mount, Tick 1, Render, Rerun, StopPolling, Settle (Inr JNull)]
        (useApiPolling_init lazy_config))) = []"
    by blast
  from imm lazy authorised quiet a b show ?thesis
    unfolding beg by simp
qed

section \<open>Failure of the wrapped operation\<close>

lemma executePoll_failure:
  "\<not> (requiresAuth f \<and> \<not> auth) \<Longrightarrow> call f [] = Inl err \<Longrightarrow>
     executePoll cfg f auth w =
       ([SetLoading True, SetError None, Invoke [], SetError (Some err)]
          @ (if stopOnError cfg then SetIsPolling False # clearTimer w else [])
          @ [SetLoading False],
        Rejected err)"
  by (auto simp: executePoll_def executePoll_begin_def executePoll_resume_def clearTimer_def)

text \<open>
  C4 (as amended). When the wrapped operation fails, all three hooks store the error in
  their \<open>error\<close> state and re-raise it: the promise of \<open>execute\<close>, of \<open>fetchPage\<close>
  and of \<open>executePoll\<close> rejects with the error of the operation. (For \<open>execute\<close> and
  \<open>executePoll\<close> the operation is invoked when the authentication check passes, for
  \<open>execute\<close> when moreover the cache does not serve the call, for \<open>fetchPage\<close> when
  the paginator is idle with \<open>hasMore\<close> set.) \<open>fetchPage\<close> keeps the accumulated items.
\<close>

theorem failure_stored_and_rethrown:
  "(\<not> (requiresAuth f \<and> \<not> auth) \<and> \<not> isCacheValid cfg (cacheRef s) now (JArr params)
      \<and> call f params = Inl err \<longrightarrow>
        snd (execute cfg f auth now now' (cacheRef s) params) = Rejected err
        \<and> error (execute_state cfg f auth now now' params s) = Some err)
   \<and> (\<not> loading p \<and> hasMore p \<and> call g [page_params pcfg n] = Inl err \<longrightarrow>
        snd (fetchPage pcfg g p (Some n)) = Rejected err
        \<and> error (fetchPage_state pcfg g (Some n) p) = Some err
        \<and> items (fetchPage_state pcfg g (Some n) p) = items p)
   \<and> (\<not> (requiresAuth h \<and> \<not> auth) \<and> call h [] = Inl err \<longrightarrow>
        snd (executePoll qcfg h auth w) = Rejected err
        \<and> error (poll_run (fst (executePoll qcfg h auth w)) w) = Some err)"
proof (intro conjI impI)
  assume a: "\<not> (requiresAuth f \<and> \<not> auth) \<and> \<not> isCacheValid cfg (cacheRef s) now (JArr params)
      \<and> call f params = Inl err"
  then have e: "execute cfg f auth now now' (cacheRef s) params =
       ([SetLoading True, SetError None, Invoke params, SetError (Some err)]
          @ (if onError cfg then [OnError err] else [])
          @ [SetLoading False],
        Rejected err)"
    by (intro execute_failure) simp_all
  show "snd (execute cfg f auth now now' (cacheRef s) params) = Rejected err"
    by (simp add: e)
  show "error (execute_state cfg f auth now now' params s) = Some err"
    by (simp add: execute_state_def e)
next
  assume a: "\<not> loading p \<and> hasMore p \<and> call g [page_params pcfg n] = Inl err"
  then have e: "fetchPage pcfg g p (Some n) =
       ([SetLoading True, SetError None, Invoke [page_params pcfg n], SetError (Some err),
         SetLoading False], Rejected err)"
    by (intro fetchPage_failed) simp_all
  show "snd (fetchPage pcfg g p (Some n)) = Rejected err"
    by (simp add: e)
  show "error (fetchPage_state pcfg g (Some n) p) = Some err"
    by (simp add: fetchPage_state_def e)
  show "items (fetchPage_state pcfg g (Some n) p) = items p"
    by (simp add: fetchPage_state_def e)
next
  assume a: "\<not> (requiresAuth h \<and> \<not> auth) \<and> call h [] = Inl err"
  then have e: "executePoll qcfg h auth w =
       ([SetLoading True, SetError None, Invoke [], SetError (Some err)]
          @ (if stopOnError qcfg then SetIsPolling False # clearTimer w else [])
          @ [SetLoading False],
        Rejected err)"
    by (intro executePoll_failure) simp_all
  show "snd (executePoll qcfg h auth w) = Rejected err"
    by (simp add: e)
  show "error (poll_run (fst (executePoll qcfg h auth w)) w) = Some err"
    by (simp add: e clearTimer_def split: option.splits)
qed

theorem failure_stored_and_rethrown_witness:
  "snd (execute caching_config failing_api True 2000 2100 (cacheRef v1_state) [JNum 2])
      = Rejected (Error ''boom'')
   \<and> error (execute_state caching_config failing_api True 2000 2100 [JNum 2] v1_state)
      = Some (Error ''boom'')
   \<and> snd (fetchPage scenario_config failing_api scenario_2 (Some 3)) = Rejected (Error ''boom'')
   \<and> error (fetchPage_state scenario_config failing_api (Some 3) scenario_2) = Some (Error ''boom'')
   \<and> items (fetchPage_state scenario_config failing_api (Some 3) scenario_2) = numbers 0 20
   \<and> snd (executePoll lazy_config failing_api True (useApiPolling_init lazy_config))
      = Rejected (Error ''boom'')
   \<and> error (poll_run (fst (executePoll lazy_config failing_api True (useApiPolling_init lazy_config)))
        (useApiPolling_init lazy_config)) = Some (Error ''boom'')"
proof -
  have h1: "\<not> (requiresAuth (failing_api :: jsval api) \<and> \<not> True)
      \<and> \<not> isCacheValid caching_config (cacheRef v1_state) 2000 (JArr [JNum 2])
      \<and> call (failing_api :: jsval api) [JNum 2] = Inl (Error ''boom'')"
    by (simp add: isCacheValid_def caching_config_def id1_params_def v1_entry_def v1_state_def
        failing_api_def const_api_def quote_def escape_char_def show_int_def show_nat_digit)
  have h2: "\<not> loading scenario_2 \<and> hasMore scenario_2
      \<and> call (failing_api :: page_response api) [page_params scenario_config 3] = Inl (Error ''boom'')"
    by (simp add: scenario_2_eq failing_api_def const_api_def)
  have h3: "\<not> (requiresAuth (failing_api :: jsval api) \<and> \<not> True)
      \<and> call (failing_api :: jsval api) [] = Inl (Error ''boom'')"
    by (simp add: failing_api_def const_api_def)
  from failure_stored_and_rethrown [of failing_api True caching_config v1_state 2000 "[JNum 2]"
      "Error ''boom''" 2100 scenario_2 failing_api scenario_config 3 failing_api lazy_config
      "useApiPolling_init lazy_config"] h1 h2 h3
  show ?thesis
    by (simp add: scenario_2_eq)
qed

text \<open>
  C4 as stated fails for the Poller: \<open>executePoll\<close> has \<open>throw err\<close> in its \<open>catch\<close>
  block, so a failing call of it rejects with the error of the operation.
\<close>

theorem executePoll_rethrows_counterexample:
  "call (failing_api :: jsval api) [] = Inl (Error ''boom'')
   \<and> executePoll lazy_config failing_api True (useApiPolling_init lazy_config)
       = ([SetLoading True, SetError None, Invoke [], SetError (Some (Error ''boom'')),
           SetIsPolling False, SetLoading False],
          Rejected (Error ''boom''))"
  by (simp add: executePoll_def executePoll_begin_def executePoll_resume_def clearTimer_def
      lazy_config_def failing_api_def const_api_def useApiPolling_init_def)

section \<open>Properties of the REST client\<close>






lemma isJson_json_response [simp]: "isJson (json_response st v)"
  by (simp add: isJson_def json_response_def)

lemma read_body_json_response [simp]: "read_body (json_response st v) = Inr v"
  by (simp add: read_body_def json_response_def isJson_def)

lemma status_json_response [simp]: "status (json_response st v) = st"
  by (simp add: json_response_def)



end
